theory Spec2Isabelle
  imports Main "HOL-Library.Sublist"
begin

section \<open>Python text: code points, literals and the string methods the feed uses\<close>

text \<open>
  A Python \<open>str\<close> is a sequence of Unicode code points; a code point is a natural number.
  \<open>py\<close> turns an ASCII literal of the source into its code points.
\<close>

type_synonym pystr = "nat list"

definition py :: "string \<Rightarrow> pystr" where
  "py cs = map of_char cs"

text \<open>The characters at which \<open>str.splitlines\<close> breaks a line.\<close>

definition is_linebreak :: "nat \<Rightarrow> bool" where
  "is_linebreak c =
     ((10 \<le> c \<and> c \<le> 13) \<or> (28 \<le> c \<and> c \<le> 30) \<or> c = 133 \<or> c = 8232 \<or> c = 8233)"

text \<open>The characters that \<open>str.strip\<close> and \<open>str.rstrip\<close> remove (Unicode whitespace).\<close>

definition is_space :: "nat \<Rightarrow> bool" where
  "is_space c =
     ((9 \<le> c \<and> c \<le> 13) \<or> (28 \<le> c \<and> c \<le> 32) \<or> c = 133 \<or> c = 160 \<or> c = 5760
      \<or> (8192 \<le> c \<and> c \<le> 8202) \<or> c = 8232 \<or> c = 8233 \<or> c = 8239 \<or> c = 8287
      \<or> c = 12288)"

text \<open>
  \<open>out.splitlines()\<close>: the text is cut at every line boundary, \<open>\r\n\<close> counting as one
  boundary; the boundaries are dropped and no empty last line is produced. The first
  argument is the line read so far.
\<close>

fun splitlines_from :: "pystr \<Rightarrow> pystr \<Rightarrow> pystr list" where
  "splitlines_from cur [] = (if cur = [] then [] else [cur])"
| "splitlines_from cur [c] = (if is_linebreak c then [cur] else [cur @ [c]])"
| "splitlines_from cur (c # d # cs) =
     (if c = 13 \<and> d = 10 then cur # splitlines_from [] cs
      else if is_linebreak c then cur # splitlines_from [] (d # cs)
      else splitlines_from (cur @ [c]) (d # cs))"

definition splitlines :: "pystr \<Rightarrow> pystr list" where
  "splitlines out = splitlines_from [] out"

definition rstrip :: "pystr \<Rightarrow> pystr" where
  "rstrip ln = rev (dropWhile is_space (rev ln))"

definition strip :: "pystr \<Rightarrow> pystr" where
  "strip ln = dropWhile is_space (rstrip ln)"

definition startswith :: "pystr \<Rightarrow> pystr \<Rightarrow> bool" where
  "startswith ln p = (take (length p) ln = p)"

text \<open>\<open>str(n)\<close> for a non-negative integer: its decimal digits.\<close>

fun str_nat :: "nat \<Rightarrow> pystr" where
  "str_nat n = (if n < 10 then [48 + n] else str_nat (n div 10) @ [48 + n mod 10])"

text \<open>
  Truthiness of a \<open>str | None\<close> value, as tested by \<open>if self._cursor:\<close> and \<open>if cursor:\<close>:
  \<open>None\<close> and the empty string are false.
\<close>

fun truthy :: "pystr option \<Rightarrow> bool" where
  "truthy None = False"
| "truthy (Some v) = (v \<noteq> [])"

section \<open>Lists and the bounded deque\<close>

text \<open>
  The slice \<open>xs[-n:]\<close> for \<open>n \<ge> 0\<close>: the last \<open>n\<close> elements, and the whole list when
  \<open>n = 0\<close> (then the slice is \<open>xs[0:]\<close>).
\<close>

definition last_slice :: "nat \<Rightarrow> 'a list \<Rightarrow> 'a list" where
  "last_slice n xs = (if n = 0 then xs else drop (length xs - n) xs)"

text \<open>
  \<open>deque(maxlen=L).append(x)\<close>: the item is added on the right, and when the deque is
  then longer than \<open>L\<close> the leftmost item is discarded.
\<close>

definition deque_append :: "nat \<Rightarrow> 'a list \<Rightarrow> 'a \<Rightarrow> 'a list" where
  "deque_append L buf x = (let b = buf @ [x] in if L < length b then tl b else b)"

text \<open>The loop \<open>for ln in xs: self._buffer.append(ln)\<close>.\<close>

definition append_all :: "nat \<Rightarrow> 'a list \<Rightarrow> 'a list \<Rightarrow> 'a list" where
  "append_all L buf xs = foldl (deque_append L) buf xs"

text \<open>\<open>self._buffer[-1] if self._buffer else None\<close>, and \<open>tail[-1] if tail else None\<close>.\<close>

definition last_or_none :: "'a list \<Rightarrow> 'a option" where
  "last_or_none xs = (if xs = [] then None else Some (last xs))"

text \<open>
  The backward scan
  \<open>for i in range(len(lines) - 1, -1, -1): if lines[i] == last: last_idx = i; break\<close>.
  The counter is the number of indices not yet visited; \<open>None\<close> is \<open>last_idx is None\<close>.
\<close>

fun scan_back :: "'a list \<Rightarrow> 'a \<Rightarrow> nat \<Rightarrow> nat option" where
  "scan_back xs x 0 = None"
| "scan_back xs x (Suc i) = (if xs ! i = x then Some i else scan_back xs x i)"

definition find_last :: "'a list \<Rightarrow> 'a \<Rightarrow> nat option" where
  "find_last xs x = scan_back xs x (length xs)"

section \<open>The feed state and the external tools\<close>

datatype backend = Journal | Dmesg

text \<open>
  The fields of \<open>DiagnosticsFeed\<close>. \<open>journalctl\<close> and \<open>dmesg\<close> are the tool paths found by
  \<open>_which\<close> at construction (\<open>None\<close>: not on the path). \<open>invoked\<close> is a ghost field that no
  code reads: the argument vectors handed to \<open>subprocess.check_output\<close> so far, oldest first.
\<close>

record feed =
  limit :: nat
  buffer :: "pystr list"
  backend :: "backend option"
  journalctl :: "pystr option"
  dmesg :: "pystr option"
  cursor :: "pystr option"
  journal_tail :: "pystr option"
  dmesg_tail :: "pystr option"
  invoked :: "pystr list list"

text \<open>
  The outside world during one poll: what \<open>subprocess.check_output\<close> gives for an argument
  vector. \<open>None\<close> stands for every exception it raises (non-zero exit status, timeout,
  executable not found); \<open>Some out\<close> is the captured text.
\<close>

type_synonym env = "pystr list \<Rightarrow> pystr option"

definition check_output :: "env \<Rightarrow> pystr list \<Rightarrow> feed \<Rightarrow> pystr option \<times> feed" where
  "check_output run argv s = (run argv, s\<lparr>invoked := invoked s @ [argv]\<rparr>)"

text \<open>\<open>__init__\<close>: \<open>self.limit = max(1, int(limit))\<close>, an empty deque, nothing selected.\<close>

definition init :: "int \<Rightarrow> pystr option \<Rightarrow> pystr option \<Rightarrow> feed" where
  "init lim jc dm =
     \<lparr>limit = nat (max 1 lim), buffer = [], backend = None, journalctl = jc, dmesg = dm,
      cursor = None, journal_tail = None, dmesg_tail = None, invoked = []\<rparr>"

definition snapshot :: "feed \<Rightarrow> pystr list" where
  "snapshot s = buffer s"

section \<open>Journal output: cursor trailer and filtering\<close>

definition cursor_prefix :: pystr where
  "cursor_prefix = py ''-- cursor:''"

definition no_entries :: pystr where
  "no_entries = py ''-- No entries --''"

text \<open>
  \<open>ln.split(":", 1)[1]\<close>: the text after the first colon. It is only evaluated on a line
  that starts with the cursor prefix, which contains a colon, so the index is in range.
\<close>

definition after_colon :: "pystr \<Rightarrow> pystr" where
  "after_colon ln = drop 1 (dropWhile (\<lambda>c. c \<noteq> 58) ln)"

text \<open>\<open>_extract_cursor\<close>; the loop runs over \<open>reversed(raw_lines)\<close>.\<close>

fun extract_cursor_loop :: "pystr list \<Rightarrow> pystr option" where
  "extract_cursor_loop [] = None"
| "extract_cursor_loop (ln # rest) =
     (if startswith ln cursor_prefix
      then (let v = strip (after_colon ln) in if v = [] then None else Some v)
      else extract_cursor_loop rest)"

definition extract_cursor :: "pystr list \<Rightarrow> pystr option" where
  "extract_cursor raw_lines = extract_cursor_loop (rev raw_lines)"

text \<open>\<open>_filter_journal_lines\<close>.\<close>

fun filter_journal_lines :: "pystr list \<Rightarrow> pystr list" where
  "filter_journal_lines [] = []"
| "filter_journal_lines (raw # rest) =
     (let ln = rstrip raw in
        if ln = [] then filter_journal_lines rest
        else if ln = no_entries then filter_journal_lines rest
        else if startswith ln cursor_prefix then filter_journal_lines rest
        else ln # filter_journal_lines rest)"

section \<open>The ring-buffer fetch\<close>

text \<open>The six command lines tried in order.\<close>

definition dmesg_candidates :: "pystr \<Rightarrow> pystr list list" where
  "dmesg_candidates d =
     [[d, py ''--color=never'', py ''--level=err,warn'', py ''--ctime''],
      [d, py ''--color=never'', py ''--level=err,warn''],
      [d, py ''--level=err,warn'', py ''--ctime''],
      [d, py ''--level=err,warn''],
      [d, py ''--ctime''],
      [d]]"

text \<open>The loop over the candidates: the first one that does not raise gives \<open>out\<close>.\<close>

fun try_candidates :: "env \<Rightarrow> pystr list list \<Rightarrow> feed \<Rightarrow> pystr option \<times> feed" where
  "try_candidates run [] s = (None, s)"
| "try_candidates run (argv # rest) s =
     (case check_output run argv s of
        (Some out, s1) \<Rightarrow> (Some out, s1)
      | (None, s1) \<Rightarrow> try_candidates run rest s1)"

text \<open>\<open>[ln.rstrip() for ln in out.splitlines() if ln.strip()]\<close>.\<close>

definition dmesg_lines :: "pystr \<Rightarrow> pystr list" where
  "dmesg_lines out = map rstrip (filter (\<lambda>ln. strip ln \<noteq> []) (splitlines out))"

text \<open>
  The block that occurs twice in \<open>_poll_dmesg\<close>: clear the buffer, refill it from \<open>tail\<close>,
  set the tail marker, return the snapshot with \<open>reset = True\<close>.
\<close>

definition dmesg_refill :: "feed \<Rightarrow> pystr list \<Rightarrow> (pystr list \<times> bool) \<times> feed" where
  "dmesg_refill s tail =
     (let s1 = s\<lparr>buffer := append_all (limit s) [] tail\<rparr>;
          s2 = s1\<lparr>dmesg_tail := last_or_none tail\<rparr>
      in ((snapshot s2, True), s2))"

definition poll_dmesg :: "env \<Rightarrow> bool \<Rightarrow> feed \<Rightarrow> (pystr list \<times> bool) \<times> feed" where
  "poll_dmesg run force_reset s =
     (case dmesg s of
        None \<Rightarrow> (([], True), s\<lparr>buffer := [], dmesg_tail := None\<rparr>)
      | Some d \<Rightarrow>
          (case try_candidates run (dmesg_candidates d) s of
             (None, s1) \<Rightarrow> (([], True), s1\<lparr>buffer := [], dmesg_tail := None\<rparr>)
           | (Some out, s1) \<Rightarrow>
               (let all_lines = dmesg_lines out;
                    tail = last_slice (limit s1) all_lines
                in if force_reset then dmesg_refill s1 tail
                   else (case dmesg_tail s1 of
                           None \<Rightarrow> dmesg_refill s1 tail
                         | Some lst \<Rightarrow>
                             (case find_last all_lines lst of
                                None \<Rightarrow> dmesg_refill s1 tail
                              | Some last_idx \<Rightarrow>
                                  (let new_lines = drop (last_idx + 1) all_lines;
                                       s2 = s1\<lparr>buffer := append_all (limit s1) (buffer s1) new_lines\<rparr>;
                                       s3 = s2\<lparr>dmesg_tail := last_or_none (buffer s2)\<rparr>
                                   in ((new_lines, False), s3)))))))"

section \<open>The journal fetch\<close>

definition journal_argv :: "feed \<Rightarrow> pystr list" where
  "journal_argv s =
     [case journalctl s of None \<Rightarrow> py ''journalctl''
                         | Some p \<Rightarrow> if p = [] then py ''journalctl'' else p,
      py ''--no-pager'', py ''--output'', py ''short-iso'', py ''-p'', py ''0..4'',
      py ''--show-cursor'']
     @ (case cursor s of
          None \<Rightarrow> [py ''-n'', str_nat (limit s)]
        | Some c \<Rightarrow> if c = [] then [py ''-n'', str_nat (limit s)]
                    else [py ''--after-cursor'', c])"

text \<open>
  The block that occurs three times in \<open>_poll_journalctl\<close>: clear the buffer, refill it
  from \<open>lines[-self.limit:]\<close>, set the journal tail, return the snapshot with
  \<open>reset = True\<close>.
\<close>

definition journal_refill :: "feed \<Rightarrow> pystr list \<Rightarrow> (pystr list \<times> bool) \<times> feed" where
  "journal_refill s lines =
     (let s1 = s\<lparr>buffer := append_all (limit s) [] (last_slice (limit s) lines)\<rparr>;
          s2 = s1\<lparr>journal_tail := last_or_none (buffer s1)\<rparr>
      in ((snapshot s2, True), s2))"

definition poll_journalctl :: "env \<Rightarrow> feed \<Rightarrow> (pystr list \<times> bool) \<times> feed" where
  "poll_journalctl run s =
     (let argv = journal_argv s;
          reset_required = (\<not> truthy (cursor s) \<and> length (buffer s) = 0)
      in case check_output run argv s of
           (None, s1) \<Rightarrow>
             (if dmesg s1 \<noteq> None
              then poll_dmesg run True (s1\<lparr>backend := Some Dmesg, cursor := None\<rparr>)
              else (([], True), s1\<lparr>buffer := [], cursor := None\<rparr>))
         | (Some out, s1) \<Rightarrow>
             (let raw_lines = splitlines out;
                  c = extract_cursor raw_lines;
                  s2 = (if truthy c then s1\<lparr>cursor := c\<rparr> else s1);
                  lines = filter_journal_lines raw_lines
              in if reset_required then journal_refill s2 lines
                 else if truthy (cursor s2) then
                   (let new_lines = lines;
                        s3 = s2\<lparr>buffer := append_all (limit s2) (buffer s2) new_lines\<rparr>;
                        s4 = (if new_lines \<noteq> []
                              then s3\<lparr>journal_tail := last_or_none (buffer s3)\<rparr> else s3)
                    in ((new_lines, False), s4))
                 else (case journal_tail s2 of
                         None \<Rightarrow> journal_refill s2 lines
                       | Some lst \<Rightarrow>
                           (case find_last lines lst of
                              None \<Rightarrow> journal_refill s2 lines
                            | Some last_idx \<Rightarrow>
                                (let new_lines = drop (last_idx + 1) lines;
                                     s3 = s2\<lparr>buffer := append_all (limit s2) (buffer s2) new_lines\<rparr>;
                                     s4 = s3\<lparr>journal_tail := last_or_none (buffer s3)\<rparr>
                                 in ((new_lines, False), s4))))))"

section \<open>The orchestrator\<close>

text \<open>
  The first block of \<open>poll\<close>: with nothing selected, pick the journal if its tool was
  found, else the ring buffer if its tool was found; \<open>None\<close> is the early
  \<open>return ([], True)\<close>.
\<close>

definition select_backend :: "feed \<Rightarrow> feed option" where
  "select_backend s =
     (if backend s = None then
        (if journalctl s \<noteq> None then Some (s\<lparr>backend := Some Journal\<rparr>)
         else if dmesg s \<noteq> None then Some (s\<lparr>backend := Some Dmesg\<rparr>)
         else None)
      else Some s)"

definition poll :: "env \<Rightarrow> feed \<Rightarrow> (pystr list \<times> bool) \<times> feed" where
  "poll run s =
     (case select_backend s of
        None \<Rightarrow> (([], True), s)
      | Some s1 \<Rightarrow>
          if backend s1 = Some Journal \<and> journalctl s1 \<noteq> None then
            (case poll_journalctl run s1 of
               ((lines, reset), s2) \<Rightarrow>
                 if lines \<noteq> [] \<or> reset then ((lines, reset), s2) else (([], False), s2))
          else if backend s1 = Some Dmesg \<and> dmesg s1 \<noteq> None then poll_dmesg run False s1
          else (([], True),
                s1\<lparr>buffer := [], backend := None, cursor := None, dmesg_tail := None\<rparr>))"

text \<open>A run of polls, one environment per poll, and the results they return.\<close>

fun polls :: "env list \<Rightarrow> feed \<Rightarrow> feed" where
  "polls [] s = s"
| "polls (run # runs) s = polls runs (snd (poll run s))"

section \<open>Notions used to state the properties\<close>

text \<open>The last \<open>L\<close> elements of a list (all of it when it is shorter).\<close>

definition keep_last :: "nat \<Rightarrow> 'a list \<Rightarrow> 'a list" where
  "keep_last L xs = drop (length xs - L) xs"

text \<open>
  What the candidate loop yields for an environment, and the command lines it tries: the
  failing candidates up to and including the first one that succeeds.
\<close>

fun first_ok :: "env \<Rightarrow> pystr list list \<Rightarrow> pystr option" where
  "first_ok run [] = None"
| "first_ok run (argv # rest) = (case run argv of Some out \<Rightarrow> Some out | None \<Rightarrow> first_ok run rest)"

fun attempts :: "env \<Rightarrow> pystr list list \<Rightarrow> pystr list list" where
  "attempts run [] = []"
| "attempts run (argv # rest) = (case run argv of Some out \<Rightarrow> [argv] | None \<Rightarrow> argv # attempts run rest)"

text \<open>
  The capacity is at least one, as the constructor makes it, and the buffer is within it.
\<close>

definition feed_ok :: "feed \<Rightarrow> bool" where
  "feed_ok s = (1 \<le> limit s \<and> length (buffer s) \<le> limit s)"

text \<open>With nothing selected the buffer is empty: no fetch has filled it yet.\<close>

definition feed_inv :: "feed \<Rightarrow> bool" where
  "feed_inv s = (feed_ok s \<and> (backend s = None \<longrightarrow> buffer s = []))"



text \<open>
  The tail markers agree with the buffer: with nothing selected both the buffer and the
  ring-buffer marker are empty; with the journal selected a non-empty buffer ends in the
  journal tail; with the ring buffer selected its marker is the last buffered line.
\<close>

definition feed_sync :: "feed \<Rightarrow> bool" where
  "feed_sync s =
     (feed_ok s
      \<and> (backend s = None \<longrightarrow> buffer s = [] \<and> dmesg_tail s = None)
      \<and> (backend s = Some Journal \<longrightarrow>
            (buffer s \<noteq> [] \<longrightarrow> journal_tail s = Some (last (buffer s))))
      \<and> (backend s = Some Dmesg \<longrightarrow> dmesg_tail s = last_or_none (buffer s)))"

section \<open>Lists, the bounded deque and the backward scan\<close>

lemmas text_defs = py_def is_linebreak_def is_space_def splitlines_def rstrip_def strip_def startswith_def
  cursor_prefix_def no_entries_def after_colon_def extract_cursor_def
lemmas feed_defs = last_slice_def deque_append_def append_all_def last_or_none_def find_last_def
  check_output_def init_def snapshot_def dmesg_candidates_def dmesg_lines_def dmesg_refill_def
  poll_dmesg_def journal_argv_def journal_refill_def poll_journalctl_def select_backend_def poll_def
  Let_def

lemma deque_append_keep_last:
  assumes le: "length buf \<le> L"
  shows "deque_append L buf x = keep_last L (buf @ [x])"
proof (cases "L < length (buf @ [x])")
  case True
  with le have "length buf = L" by simp
  then have "Suc (length buf) - L = Suc 0" by simp
  then have "keep_last L (buf @ [x]) = drop (Suc 0) (buf @ [x])"
    by (simp add: keep_last_def)
  also have "\<dots> = tl (buf @ [x])" by (cases "buf @ [x]") simp_all
  finally show ?thesis using True by (simp add: deque_append_def)
next
  case False
  then show ?thesis by (simp add: deque_append_def keep_last_def)
qed

lemma length_keep_last: "length (keep_last L xs) \<le> L"
  by (simp add: keep_last_def)

lemma keep_last_append: "keep_last L (keep_last L xs @ ys) = keep_last L (xs @ ys)"
proof (cases "length xs \<le> L")
  case True
  then show ?thesis by (simp add: keep_last_def)
next
  case False
  then have "length xs - L + L = length xs" by simp
  then show ?thesis using False by (simp add: keep_last_def add.commute)
qed

lemma append_all_keep_last:
  "length buf \<le> L \<Longrightarrow> append_all L buf xs = keep_last L (buf @ xs)"
proof (induction xs arbitrary: buf)
  case Nil
  then show ?case by (simp add: append_all_def keep_last_def)
next
  case (Cons x xs)
  have step: "deque_append L buf x = keep_last L (buf @ [x])"
    using Cons.prems by (rule deque_append_keep_last)
  have "append_all L buf (x # xs) = append_all L (keep_last L (buf @ [x])) xs"
    by (simp add: append_all_def step)
  also have "\<dots> = keep_last L (keep_last L (buf @ [x]) @ xs)"
    by (rule Cons.IH) (rule length_keep_last)
  also have "\<dots> = keep_last L ((buf @ [x]) @ xs)"
    by (rule keep_last_append)
  finally show ?case by simp
qed

lemma scan_back_None: "scan_back xs x n = None \<longleftrightarrow> (\<forall>j<n. xs ! j \<noteq> x)"
  by (induction n) (auto simp: less_Suc_eq)

lemma scan_back_Some:
  "scan_back xs x n = Some i \<longleftrightarrow> i < n \<and> xs ! i = x \<and> (\<forall>j. i < j \<and> j < n \<longrightarrow> xs ! j \<noteq> x)"
proof (induction n)
  case 0
  then show ?case by simp
next
  case (Suc n)
  show ?case
  proof (cases "xs ! n = x")
    case True
    then show ?thesis by (auto simp: less_Suc_eq)
  next
    case False
    then show ?thesis using Suc by (auto simp: less_Suc_eq)
  qed
qed

lemma find_last_None: "find_last xs x = None \<longleftrightarrow> x \<notin> set xs"
  by (auto simp: find_last_def scan_back_None in_set_conv_nth)

lemma find_last_Some:
  "find_last xs x = Some i \<longleftrightarrow>
     i < length xs \<and> xs ! i = x \<and> (\<forall>j. i < j \<and> j < length xs \<longrightarrow> xs ! j \<noteq> x)"
  by (simp add: find_last_def scan_back_Some)

section \<open>One fetch, one poll\<close>

lemma try_candidates_eq:
  "try_candidates run cs s = (first_ok run cs, s\<lparr>invoked := invoked s @ attempts run cs\<rparr>)"
  by (induction cs arbitrary: s) (auto simp: check_output_def split: option.splits)

lemma attempts_subset: "set (attempts run cs) \<subseteq> set cs"
  by (induction cs) (auto split: option.splits)

lemma last_slice_keep_last: "1 \<le> L \<Longrightarrow> last_slice L xs = keep_last L xs"
  by (simp add: last_slice_def keep_last_def)

lemma append_all_empty: "append_all L [] xs = keep_last L xs"
  using append_all_keep_last [of "[]" L xs] by simp

lemma keep_last_idem: "keep_last L (keep_last L xs) = keep_last L xs"
  using keep_last_append [of L xs "[]"] by simp

lemma dmesg_refill_eq:
  "1 \<le> limit s \<Longrightarrow> dmesg_refill s (last_slice (limit s) xs) =
     ((keep_last (limit s) xs, True),
      s\<lparr>buffer := keep_last (limit s) xs, dmesg_tail := last_or_none (keep_last (limit s) xs)\<rparr>)"
  by (simp add: dmesg_refill_def Let_def snapshot_def last_slice_keep_last append_all_empty keep_last_idem)

lemma journal_refill_eq:
  "1 \<le> limit s \<Longrightarrow> journal_refill s xs =
     ((keep_last (limit s) xs, True),
      s\<lparr>buffer := keep_last (limit s) xs, journal_tail := last_or_none (keep_last (limit s) xs)\<rparr>)"
  by (simp add: journal_refill_def Let_def snapshot_def last_slice_keep_last append_all_empty keep_last_idem)

lemma poll_dmesg_step:
  assumes ok: "feed_ok s" and p: "poll_dmesg run fr s = ((lines, reset), s')"
  shows "limit s' = limit s \<and> backend s' = backend s \<and> journalctl s' = journalctl s
         \<and> dmesg s' = dmesg s \<and> cursor s' = cursor s \<and> journal_tail s' = journal_tail s
         \<and> buffer s' = (if reset then lines else keep_last (limit s) (buffer s @ lines))
         \<and> length (buffer s') \<le> limit s"
proof -
  from ok have L: "1 \<le> limit s" and B: "length (buffer s) \<le> limit s"
    by (simp_all add: feed_ok_def)
  show ?thesis
  proof (cases "dmesg s")
    case None
    with p show ?thesis by (auto simp: poll_dmesg_def)
  next
    case (Some d)
    let ?s1 = "s\<lparr>invoked := invoked s @ attempts run (dmesg_candidates d)\<rparr>"
    have L1: "1 \<le> limit ?s1" using L by simp
    show ?thesis
    proof (cases "first_ok run (dmesg_candidates d)")
      case None
      with p Some show ?thesis by (auto simp: poll_dmesg_def try_candidates_eq)
    next
      case out: (Some out)
      note rf = dmesg_refill_eq [OF L1, of "dmesg_lines out"]
      from p Some out rf B show ?thesis
        by (auto simp: poll_dmesg_def try_candidates_eq Let_def append_all_keep_last length_keep_last
                 split: option.splits if_splits)
    qed
  qed
qed

lemma poll_journalctl_step:
  assumes ok: "feed_ok s" and p: "poll_journalctl run s = ((lines, reset), s')"
  shows "limit s' = limit s \<and> journalctl s' = journalctl s \<and> dmesg s' = dmesg s
         \<and> buffer s' = (if reset then lines else keep_last (limit s) (buffer s @ lines))
         \<and> length (buffer s') \<le> limit s
         \<and> (backend s' = backend s \<or> (run (journal_argv s) = None \<and> dmesg s \<noteq> None \<and> backend s' = Some Dmesg))"
proof -
  from ok have L: "1 \<le> limit s" and B: "length (buffer s) \<le> limit s"
    by (simp_all add: feed_ok_def)
  let ?s1 = "s\<lparr>invoked := invoked s @ [journal_argv s]\<rparr>"
  show ?thesis
  proof (cases "run (journal_argv s)")
    case None
    show ?thesis
    proof (cases "dmesg s")
      case dn: None
      with p None show ?thesis
        by (auto simp: poll_journalctl_def check_output_def Let_def)
    next
      case (Some d)
      let ?s2 = "?s1\<lparr>backend := Some Dmesg, cursor := None\<rparr>"
      have ok2: "feed_ok ?s2" using ok by (simp add: feed_ok_def)
      from p None Some have "poll_dmesg run True ?s2 = ((lines, reset), s')"
        by (simp add: poll_journalctl_def check_output_def Let_def)
      from poll_dmesg_step [OF ok2 this] None Some show ?thesis
        by (auto split: if_splits)
    qed
  next
    case (Some out)
    let ?c = "extract_cursor (splitlines out)"
    let ?ls = "filter_journal_lines (splitlines out)"
    show ?thesis
    proof (cases "truthy ?c")
      case True
      let ?s2 = "?s1\<lparr>cursor := ?c\<rparr>"
      have L2: "1 \<le> limit ?s2" using L by simp
      note rf = journal_refill_eq [OF L2, of ?ls]
      have B2: "length (buffer ?s2) \<le> limit ?s2" using B by simp
      note ap = append_all_keep_last [OF B2]
      from p Some True show ?thesis
        unfolding poll_journalctl_def check_output_def Let_def
        using rf ap by (auto simp: length_keep_last split: option.splits if_splits)
    next
      case False
      have L2: "1 \<le> limit ?s1" using L by simp
      note rf = journal_refill_eq [OF L2, of ?ls]
      have B2: "length (buffer ?s1) \<le> limit ?s1" using B by simp
      note ap = append_all_keep_last [OF B2]
      from p Some False show ?thesis
        unfolding poll_journalctl_def check_output_def Let_def
        using rf ap by (auto simp: length_keep_last split: option.splits if_splits)
    qed
  qed
qed

lemma select_backend_frame:
  "select_backend s = Some s1 \<Longrightarrow>
     limit s1 = limit s \<and> buffer s1 = buffer s \<and> journalctl s1 = journalctl s \<and> dmesg s1 = dmesg s
     \<and> cursor s1 = cursor s \<and> journal_tail s1 = journal_tail s \<and> dmesg_tail s1 = dmesg_tail s
     \<and> invoked s1 = invoked s \<and> backend s1 \<noteq> None"
  by (auto simp: select_backend_def split: if_splits)

lemma poll_step:
  assumes ok: "feed_ok s" and p: "poll run s = ((lines, reset), s')"
  shows "limit s' = limit s \<and> journalctl s' = journalctl s \<and> dmesg s' = dmesg s
         \<and> (reset \<longrightarrow> buffer s' = lines \<or> (backend s = None \<and> s' = s \<and> lines = []))
         \<and> (\<not> reset \<longrightarrow> buffer s' = keep_last (limit s) (buffer s @ lines) \<and> backend s' \<noteq> None)
         \<and> length (buffer s') \<le> limit s
         \<and> (backend s' = None \<longrightarrow> buffer s' = [] \<or> s' = s)"
proof (cases "select_backend s")
  case None
  with p ok show ?thesis
    by (auto simp: poll_def select_backend_def feed_ok_def split: if_splits)
next
  case (Some s1)
  note fr = select_backend_frame [OF Some]
  have ok1: "feed_ok s1" using ok fr by (simp add: feed_ok_def)
  consider (j) "backend s1 = Some Journal \<and> journalctl s1 \<noteq> None"
    | (d) "\<not> (backend s1 = Some Journal \<and> journalctl s1 \<noteq> None)" "backend s1 = Some Dmesg \<and> dmesg s1 \<noteq> None"
    | (n) "\<not> (backend s1 = Some Journal \<and> journalctl s1 \<noteq> None)" "\<not> (backend s1 = Some Dmesg \<and> dmesg s1 \<noteq> None)"
    by blast
  then show ?thesis
  proof cases
    case j
    obtain l r s2 where pj: "poll_journalctl run s1 = ((l, r), s2)"
      by (metis surj_pair)
    note st = poll_journalctl_step [OF ok1 pj]
    from p Some j pj have "lines = l \<and> reset = r \<and> s' = s2"
      by (auto simp: poll_def split: if_splits)
    with st fr show ?thesis by auto
  next
    case d
    with p Some have pd: "poll_dmesg run False s1 = ((lines, reset), s')"
      by (simp add: poll_def)
    note st = poll_dmesg_step [OF ok1 pd]
    with fr show ?thesis by auto
  next
    case n
    with p Some fr show ?thesis by (auto simp: poll_def)
  qed
qed

lemma poll_feed_ok:
  assumes ok: "feed_ok s" shows "feed_ok (snd (poll run s))"
proof -
  obtain l r s' where p: "poll run s = ((l, r), s')" by (metis surj_pair)
  from poll_step [OF ok p] ok p show ?thesis by (simp add: feed_ok_def)
qed

lemma polls_feed_ok: "feed_ok s \<Longrightarrow> feed_ok (polls runs s)"
  by (induction runs arbitrary: s) (simp_all add: poll_feed_ok)

lemma init_feed_ok: "feed_ok (init lim jc dm)"
  by (simp add: init_def feed_ok_def)

lemma polls_limit: "feed_ok s \<Longrightarrow> limit (polls runs s) = limit s"
proof (induction runs arbitrary: s)
  case Nil
  then show ?case by simp
next
  case (Cons run runs)
  obtain l r s' where p: "poll run s = ((l, r), s')" by (metis surj_pair)
  from poll_step [OF Cons.prems p] have "limit s' = limit s" by simp
  moreover have "feed_ok s'" using poll_feed_ok [OF Cons.prems, of run] p by simp
  ultimately show ?case using Cons.IH [of s'] p by simp
qed

lemma poll_feed_inv:
  assumes inv: "feed_inv s" shows "feed_inv (snd (poll run s))"
proof -
  from inv have ok: "feed_ok s" by (simp add: feed_inv_def)
  obtain l r s' where p: "poll run s = ((l, r), s')" by (metis surj_pair)
  from poll_step [OF ok p] have "backend s' = None \<longrightarrow> buffer s' = [] \<or> s' = s" by simp
  with inv have "backend s' = None \<longrightarrow> buffer s' = []" by (auto simp: feed_inv_def)
  with poll_feed_ok [OF ok, of run] p show ?thesis by (simp add: feed_inv_def)
qed

lemma polls_feed_inv: "feed_inv s \<Longrightarrow> feed_inv (polls runs s)"
  by (induction runs arbitrary: s) (simp_all add: poll_feed_inv)

lemma init_feed_inv: "feed_inv (init lim jc dm)"
  by (simp add: init_def feed_inv_def feed_ok_def)

lemma polls_init_limit: "limit (polls runs (init lim jc dm)) = nat (max 1 lim)"
  using polls_limit [OF init_feed_ok, of runs lim jc dm] by (simp add: init_def)


section \<open>Append consistency\<close>

text \<open>
  C10. Take any feed built by the constructor and polled any number of times. If the next
  poll returns \<open>(lines, False)\<close>, the buffer right after it is the last \<open>L\<close> elements of
  the buffer before it followed by \<open>lines\<close>, where \<open>L\<close> is the capacity fixed at
  construction. A poll that does not reset therefore only adds on the right and evicts on
  the left.
\<close>

theorem append_consistency:
  "poll run (polls runs (init lim jc dm)) = ((lines, False), s') \<Longrightarrow>
     snapshot s' = keep_last (nat (max 1 lim)) (snapshot (polls runs (init lim jc dm)) @ lines)"
proof -
  assume p: "poll run (polls runs (init lim jc dm)) = ((lines, False), s')"
  have ok: "feed_ok (polls runs (init lim jc dm))"
    by (rule polls_feed_ok) (rule init_feed_ok)
  have "limit (polls runs (init lim jc dm)) = nat (max 1 lim)"
    using polls_limit [OF init_feed_ok, of runs lim jc dm] by (simp add: init_def)
  with poll_step [OF ok p] show ?thesis by (simp add: snapshot_def)
qed

theorem append_consistency_witness:
  "fst (poll (\<lambda>argv. Some (py ''a\<newline>b\<newline>c\<newline>''))
          (polls [\<lambda>argv. Some (py ''a\<newline>b\<newline>'')] (init 2 None (Some (py ''/bin/dmesg'')))))
     = ([py ''c''], False)
   \<and> snapshot (snd (poll (\<lambda>argv. Some (py ''a\<newline>b\<newline>c\<newline>''))
          (polls [\<lambda>argv. Some (py ''a\<newline>b\<newline>'')] (init 2 None (Some (py ''/bin/dmesg''))))))
     = [py ''b'', py ''c'']"
proof -
  let ?s = "polls [\<lambda>argv. Some (py ''a\<newline>b\<newline>'')] (init 2 None (Some (py ''/bin/dmesg'')))"
  let ?r = "poll (\<lambda>argv. Some (py ''a\<newline>b\<newline>c\<newline>'')) ?s"
  have e: "fst ?r = ([py ''c''], False)" by (simp add: text_defs feed_defs)
  then have "?r = (([py ''c''], False), snd ?r)" by (metis prod.collapse)
  from append_consistency [OF this]
  have "snapshot (snd ?r) = keep_last (nat (max 1 2)) (snapshot ?s @ [py ''c''])" .
  moreover have "keep_last (nat (max 1 2)) (snapshot ?s @ [py ''c'']) = [py ''b'', py ''c'']"
    by (simp add: keep_last_def text_defs feed_defs)
  ultimately show ?thesis using e by simp
qed

section \<open>Buffer bound and order\<close>



section \<open>Reset completeness\<close>

text \<open>
  C4. For a feed built by the constructor and polled any number of times, if the next poll
  returns \<open>reset = True\<close> then the returned lines are the whole buffer as it is right after
  the poll; so is the value the caller falls back on when the lines are empty, the
  snapshot.
\<close>

theorem reset_completeness:
  "poll run (polls runs (init lim jc dm)) = ((lines, True), s') \<Longrightarrow>
     lines = snapshot s' \<and> (if lines = [] then snapshot s' else lines) = snapshot s'"
proof -
  let ?s = "polls runs (init lim jc dm)"
  assume p: "poll run ?s = ((lines, True), s')"
  have inv: "feed_inv ?s" by (rule polls_feed_inv) (rule init_feed_inv)
  then have ok: "feed_ok ?s" by (simp add: feed_inv_def)
  from poll_step [OF ok p] have "buffer s' = lines \<or> (backend ?s = None \<and> s' = ?s \<and> lines = [])"
    by simp
  with inv have "buffer s' = lines" by (auto simp: feed_inv_def)
  then show ?thesis by (simp add: snapshot_def)
qed

theorem reset_completeness_witness:
  "poll (\<lambda>argv. Some (py ''w1\<newline>w2\<newline>-- cursor: K\<newline>'')) (polls [] (init 3 (Some (py ''/usr/bin/journalctl'')) None))
     = (([py ''w1'', py ''w2''], True),
        snd (poll (\<lambda>argv. Some (py ''w1\<newline>w2\<newline>-- cursor: K\<newline>'')) (polls [] (init 3 (Some (py ''/usr/bin/journalctl'')) None))))
   \<and> snapshot (snd (poll (\<lambda>argv. Some (py ''w1\<newline>w2\<newline>-- cursor: K\<newline>''))
        (polls [] (init 3 (Some (py ''/usr/bin/journalctl'')) None)))) = [py ''w1'', py ''w2'']"
proof -
  let ?r = "poll (\<lambda>argv. Some (py ''w1\<newline>w2\<newline>-- cursor: K\<newline>'')) (polls [] (init 3 (Some (py ''/usr/bin/journalctl'')) None))"
  have e: "fst ?r = ([py ''w1'', py ''w2''], True)" by (simp add: text_defs feed_defs)
  then have p: "?r = (([py ''w1'', py ''w2''], True), snd ?r)" by (metis prod.collapse)
  from reset_completeness [OF p] p show ?thesis by simp
qed

section \<open>The fetches, case by case\<close>

lemma first_ok_None_attempts: "first_ok run cs = None \<Longrightarrow> attempts run cs = cs"
  by (induction cs) (auto split: option.splits)

lemma poll_dmesg_fail:
  assumes "dmesg s = Some d" and "first_ok run (dmesg_candidates d) = None"
  shows "poll_dmesg run fr s =
           (([], True),
            s\<lparr>invoked := invoked s @ dmesg_candidates d, buffer := [], dmesg_tail := None\<rparr>)"
  using assms by (simp add: poll_dmesg_def try_candidates_eq first_ok_None_attempts)

lemma poll_dmesg_reset:
  assumes d: "dmesg s = Some d" and out: "first_ok run (dmesg_candidates d) = Some out"
    and L: "1 \<le> limit s"
    and r: "fr \<or> dmesg_tail s = None \<or> (\<exists>m. dmesg_tail s = Some m \<and> m \<notin> set (dmesg_lines out))"
  shows "poll_dmesg run fr s =
           ((keep_last (limit s) (dmesg_lines out), True),
            s\<lparr>invoked := invoked s @ attempts run (dmesg_candidates d),
              buffer := keep_last (limit s) (dmesg_lines out),
              dmesg_tail := last_or_none (keep_last (limit s) (dmesg_lines out))\<rparr>)"
proof -
  let ?s1 = "s\<lparr>invoked := invoked s @ attempts run (dmesg_candidates d)\<rparr>"
  have L1: "1 \<le> limit ?s1" using L by simp
  note rf = dmesg_refill_eq [OF L1, of "dmesg_lines out"]
  from r consider (f) fr | (n) "dmesg_tail s = None"
    | (m) m where "dmesg_tail s = Some m" "find_last (dmesg_lines out) m = None"
    by (auto simp: find_last_None)
  then show ?thesis
  proof cases
    case f
    with d out rf show ?thesis by (simp add: poll_dmesg_def try_candidates_eq Let_def)
  next
    case n
    with d out rf show ?thesis by (simp add: poll_dmesg_def try_candidates_eq Let_def)
  next
    case m
    with d out rf show ?thesis by (simp add: poll_dmesg_def try_candidates_eq Let_def)
  qed
qed

lemma poll_dmesg_delta:
  assumes d: "dmesg s = Some d" and out: "first_ok run (dmesg_candidates d) = Some out"
    and m: "dmesg_tail s = Some m" and i: "find_last (dmesg_lines out) m = Some i"
  shows "poll_dmesg run False s =
           ((drop (Suc i) (dmesg_lines out), False),
            s\<lparr>invoked := invoked s @ attempts run (dmesg_candidates d),
              buffer := append_all (limit s) (buffer s) (drop (Suc i) (dmesg_lines out)),
              dmesg_tail := last_or_none
                 (append_all (limit s) (buffer s) (drop (Suc i) (dmesg_lines out)))\<rparr>)"
  using assms by (simp add: poll_dmesg_def try_candidates_eq Let_def)

lemma poll_journalctl_fail_dmesg:
  assumes "run (journal_argv s) = None" and "dmesg s \<noteq> None"
  shows "poll_journalctl run s =
           poll_dmesg run True
             (s\<lparr>invoked := invoked s @ [journal_argv s], backend := Some Dmesg, cursor := None\<rparr>)"
  using assms by (simp add: poll_journalctl_def check_output_def Let_def)

lemma poll_journalctl_fail_alone:
  assumes "run (journal_argv s) = None" and "dmesg s = None"
  shows "poll_journalctl run s =
           (([], True),
            s\<lparr>invoked := invoked s @ [journal_argv s], buffer := [], cursor := None\<rparr>)"
  using assms by (simp add: poll_journalctl_def check_output_def Let_def)

lemma poll_journal:
  assumes "select_backend s = Some s1" and "backend s1 = Some Journal" and "journalctl s1 \<noteq> None"
  shows "poll run s = poll_journalctl run s1"
proof -
  obtain l r s2 where pj: "poll_journalctl run s1 = ((l, r), s2)" by (metis surj_pair)
  with assms show ?thesis by (auto simp: poll_def)
qed

lemma poll_ring:
  assumes "select_backend s = Some s1" and "backend s1 = Some Dmesg" and "dmesg s1 \<noteq> None"
  shows "poll run s = poll_dmesg run False s1"
  using assms by (simp add: poll_def)

lemma select_backend_chosen: "backend s \<noteq> None \<Longrightarrow> select_backend s = Some s"
  by (cases "backend s") (simp_all add: select_backend_def)

lemma journal_argv_select: "select_backend s = Some s1 \<Longrightarrow> journal_argv s1 = journal_argv s"
proof -
  assume "select_backend s = Some s1"
  from select_backend_frame [OF this]
  have "limit s1 = limit s" "journalctl s1 = journalctl s" "cursor s1 = cursor s" by simp_all
  then show ?thesis by (simp only: journal_argv_def)
qed

lemma poll_dmesg_frame:
  "backend (snd (poll_dmesg run fr s)) = backend s \<and> dmesg (snd (poll_dmesg run fr s)) = dmesg s
   \<and> journalctl (snd (poll_dmesg run fr s)) = journalctl s"
  by (auto simp: poll_dmesg_def try_candidates_eq dmesg_refill_def Let_def split: option.splits)

lemma poll_journalctl_frame:
  "dmesg (snd (poll_journalctl run s)) = dmesg s
   \<and> journalctl (snd (poll_journalctl run s)) = journalctl s
   \<and> (backend (snd (poll_journalctl run s)) = backend s
       \<or> (backend (snd (poll_journalctl run s)) = Some Dmesg \<and> dmesg s \<noteq> None
           \<and> run (journal_argv s) = None))"
proof (cases "run (journal_argv s)")
  case None
  show ?thesis
  proof (cases "dmesg s")
    case dn: None
    with None show ?thesis by (simp add: poll_journalctl_fail_alone)
  next
    case (Some d)
    with None have "poll_journalctl run s = poll_dmesg run True
        (s\<lparr>invoked := invoked s @ [journal_argv s], backend := Some Dmesg, cursor := None\<rparr>)"
      by (simp add: poll_journalctl_fail_dmesg)
    with poll_dmesg_frame [of run True
        "s\<lparr>invoked := invoked s @ [journal_argv s], backend := Some Dmesg, cursor := None\<rparr>"]
      None Some show ?thesis by simp
  qed
next
  case (Some out)
  then show ?thesis
    by (auto simp: poll_journalctl_def check_output_def journal_refill_def Let_def
             split: option.splits)
qed

lemma ring_selected_stays:
  assumes "backend s = Some Dmesg" and "dmesg s \<noteq> None"
  shows "poll run s = poll_dmesg run False s
         \<and> backend (snd (poll run s)) = Some Dmesg \<and> dmesg (snd (poll run s)) \<noteq> None"
proof -
  from assms have "select_backend s = Some s" by (simp add: select_backend_chosen)
  from poll_ring [OF this assms] have e: "poll run s = poll_dmesg run False s" .
  with poll_dmesg_frame [of run False s] assms show ?thesis by simp
qed

lemma ring_selected_polls:
  "backend s = Some Dmesg \<Longrightarrow> dmesg s \<noteq> None \<Longrightarrow>
     backend (polls runs s) = Some Dmesg \<and> dmesg (polls runs s) \<noteq> None"
proof (induction runs arbitrary: s)
  case Nil
  then show ?case by simp
next
  case (Cons run runs)
  from ring_selected_stays [OF Cons.prems, of run]
  have "backend (snd (poll run s)) = Some Dmesg" "dmesg (snd (poll run s)) \<noteq> None" by blast+
  from Cons.IH [OF this] show ?case by simp
qed

section \<open>Tail matching in the ring-buffer fetch\<close>

text \<open>
  C1. Take a ring-buffer fetch without forced reset, on a feed within its capacity, with
  the tool present, a recorded tail marker \<open>M\<close>, and a successful invocation whose output
  gives the window \<open>W2 = dmesg_lines out\<close> of non-blank lines. If \<open>i\<close> is the index of the
  last occurrence of \<open>M\<close> in \<open>W2\<close>, the fetch returns \<open>(W2[i+1:], False)\<close> and appends
  those lines to the buffer (which keeps its last \<open>L\<close> lines). If \<open>M\<close> occurs nowhere in
  \<open>W2\<close>, the fetch replaces the buffer by the last \<open>L\<close> lines of \<open>W2\<close>, sets the tail marker
  to the last line of that slice (to none when the slice is empty), and returns that slice
  with \<open>reset = True\<close>.
\<close>

theorem tail_match:
  assumes ok: "feed_ok s" and d: "dmesg s = Some d" and m: "dmesg_tail s = Some M"
    and out: "first_ok run (dmesg_candidates d) = Some out"
  shows "(\<forall>i. i < length (dmesg_lines out) \<and> dmesg_lines out ! i = M
              \<and> (\<forall>j. i < j \<and> j < length (dmesg_lines out) \<longrightarrow> dmesg_lines out ! j \<noteq> M) \<longrightarrow>
            fst (poll_dmesg run False s) = (drop (i + 1) (dmesg_lines out), False)
            \<and> buffer (snd (poll_dmesg run False s))
                = append_all (limit s) (buffer s) (drop (i + 1) (dmesg_lines out))
            \<and> buffer (snd (poll_dmesg run False s))
                = keep_last (limit s) (buffer s @ drop (i + 1) (dmesg_lines out)))
       \<and> (M \<notin> set (dmesg_lines out) \<longrightarrow>
            fst (poll_dmesg run False s) = (keep_last (limit s) (dmesg_lines out), True)
            \<and> buffer (snd (poll_dmesg run False s)) = keep_last (limit s) (dmesg_lines out)
            \<and> dmesg_tail (snd (poll_dmesg run False s))
                = last_or_none (keep_last (limit s) (dmesg_lines out)))"
proof (intro conjI allI impI)
  from ok have L: "1 \<le> limit s" and B: "length (buffer s) \<le> limit s"
    by (simp_all add: feed_ok_def)
  {
    fix i
    assume i: "i < length (dmesg_lines out) \<and> dmesg_lines out ! i = M
              \<and> (\<forall>j. i < j \<and> j < length (dmesg_lines out) \<longrightarrow> dmesg_lines out ! j \<noteq> M)"
    then have f: "find_last (dmesg_lines out) M = Some i" by (simp add: find_last_Some)
    note eq = poll_dmesg_delta [OF d out m f]
    show "fst (poll_dmesg run False s) = (drop (i + 1) (dmesg_lines out), False)"
      by (simp add: eq)
    show "buffer (snd (poll_dmesg run False s))
                = append_all (limit s) (buffer s) (drop (i + 1) (dmesg_lines out))"
      by (simp add: eq)
    show "buffer (snd (poll_dmesg run False s))
                = keep_last (limit s) (buffer s @ drop (i + 1) (dmesg_lines out))"
      by (simp add: eq append_all_keep_last [OF B])
  }
  assume n: "M \<notin> set (dmesg_lines out)"
  with m have "False \<or> dmesg_tail s = None \<or> (\<exists>m. dmesg_tail s = Some m \<and> m \<notin> set (dmesg_lines out))"
    by simp
  note eq = poll_dmesg_reset [OF d out L this]
  show "fst (poll_dmesg run False s) = (keep_last (limit s) (dmesg_lines out), True)"
    by (simp add: eq)
  show "buffer (snd (poll_dmesg run False s)) = keep_last (limit s) (dmesg_lines out)"
    by (simp add: eq)
  show "dmesg_tail (snd (poll_dmesg run False s))
                = last_or_none (keep_last (limit s) (dmesg_lines out))"
    by (simp add: eq)
qed

theorem tail_match_witness:
  "fst (poll_dmesg (\<lambda>argv. Some (py ''e1\<newline>e2\<newline>e3\<newline>e2\<newline>e4\<newline>'')) False
          (polls [\<lambda>argv. Some (py ''e1\<newline>e2\<newline>'')] (init 3 None (Some (py ''/bin/dmesg'')))))
     = ([py ''e4''], False)
   \<and> buffer (snd (poll_dmesg (\<lambda>argv. Some (py ''e1\<newline>e2\<newline>e3\<newline>e2\<newline>e4\<newline>'')) False
          (polls [\<lambda>argv. Some (py ''e1\<newline>e2\<newline>'')] (init 3 None (Some (py ''/bin/dmesg''))))))
     = [py ''e1'', py ''e2'', py ''e4'']
   \<and> fst (poll_dmesg (\<lambda>argv. Some (py ''f1\<newline>f2\<newline>'')) False
          (polls [\<lambda>argv. Some (py ''e1\<newline>e2\<newline>'')] (init 3 None (Some (py ''/bin/dmesg'')))))
     = ([py ''f1'', py ''f2''], True)
   \<and> dmesg_tail (snd (poll_dmesg (\<lambda>argv. Some (py ''f1\<newline>f2\<newline>'')) False
          (polls [\<lambda>argv. Some (py ''e1\<newline>e2\<newline>'')] (init 3 None (Some (py ''/bin/dmesg''))))))
     = Some (py ''f2'')"
proof -
  let ?S = "polls [\<lambda>argv. Some (py ''e1\<newline>e2\<newline>'')] (init 3 None (Some (py ''/bin/dmesg'')))"
  let ?run = "\<lambda>argv::pystr list. Some (py ''e1\<newline>e2\<newline>e3\<newline>e2\<newline>e4\<newline>'')"
  let ?run2 = "\<lambda>argv::pystr list. Some (py ''f1\<newline>f2\<newline>'')"
  have ok: "feed_ok ?S" by (rule polls_feed_ok) (rule init_feed_ok)
  have d: "dmesg ?S = Some (py ''/bin/dmesg'')" by (simp add: text_defs feed_defs)
  have m: "dmesg_tail ?S = Some (py ''e2'')" by (simp add: text_defs feed_defs)
  have L: "limit ?S = 3" using polls_init_limit [of "[\<lambda>argv. Some (py ''e1\<newline>e2\<newline>'')]" 3] by simp
  have B: "buffer ?S = [py ''e1'', py ''e2'']" by (simp add: text_defs feed_defs)
  have out: "first_ok ?run (dmesg_candidates (py ''/bin/dmesg''))
               = Some (py ''e1\<newline>e2\<newline>e3\<newline>e2\<newline>e4\<newline>'')"
    by (simp add: dmesg_candidates_def)
  have out2: "first_ok ?run2 (dmesg_candidates (py ''/bin/dmesg'')) = Some (py ''f1\<newline>f2\<newline>'')"
    by (simp add: dmesg_candidates_def)
  have W: "dmesg_lines (py ''e1\<newline>e2\<newline>e3\<newline>e2\<newline>e4\<newline>'')
             = [py ''e1'', py ''e2'', py ''e3'', py ''e2'', py ''e4'']"
    by (simp add: text_defs feed_defs)
  have W2: "dmesg_lines (py ''f1\<newline>f2\<newline>'') = [py ''f1'', py ''f2'']"
    by (simp add: text_defs feed_defs)
  have j4: "\<forall>j::nat. 3 < j \<and> j < 5 \<longrightarrow> j = 4" by arith
  have pre: "(3::nat) < length (dmesg_lines (py ''e1\<newline>e2\<newline>e3\<newline>e2\<newline>e4\<newline>''))
      \<and> dmesg_lines (py ''e1\<newline>e2\<newline>e3\<newline>e2\<newline>e4\<newline>'') ! 3 = py ''e2''
      \<and> (\<forall>j. 3 < j \<and> j < length (dmesg_lines (py ''e1\<newline>e2\<newline>e3\<newline>e2\<newline>e4\<newline>''))
             \<longrightarrow> dmesg_lines (py ''e1\<newline>e2\<newline>e3\<newline>e2\<newline>e4\<newline>'') ! j \<noteq> py ''e2'')"
    unfolding W using j4 by (auto simp: py_def)
  note t1 = tail_match [OF ok d m out, THEN conjunct1, rule_format, OF pre]
  have npre: "py ''e2'' \<notin> set (dmesg_lines (py ''f1\<newline>f2\<newline>''))"
    unfolding W2 by (simp add: py_def)
  note t2 = tail_match [OF ok d m out2, THEN conjunct2, rule_format, OF npre]
  from t1 t2 show ?thesis
    unfolding W W2 L B by (simp add: keep_last_def last_or_none_def append_all_def deque_append_def)
qed

section \<open>Demotion is sticky\<close>

text \<open>
  C9. If a poll made with the journal selected leaves the ring buffer selected, then after
  any further polls the ring buffer is still selected, the journal is not, and every later
  poll is a ring-buffer fetch.
\<close>

theorem demotion_sticky:
  assumes j: "backend s = Some Journal" and d: "backend (snd (poll run s)) = Some Dmesg"
  shows "backend (polls runs (snd (poll run s))) = Some Dmesg
         \<and> backend (polls runs (snd (poll run s))) \<noteq> Some Journal
         \<and> poll run' (polls runs (snd (poll run s)))
             = poll_dmesg run' False (polls runs (snd (poll run s)))"
proof -
  from j have sel: "select_backend s = Some s" by (simp add: select_backend_chosen)
  have dm: "dmesg (snd (poll run s)) \<noteq> None"
  proof (cases "journalctl s")
    case None
    with j sel d show ?thesis by (simp add: poll_def)
  next
    case (Some p)
    with j have "journalctl s \<noteq> None" by simp
    from poll_journal [OF sel j this] have e: "poll run s = poll_journalctl run s" .
    from poll_journalctl_frame [of run s] e d j show ?thesis by auto
  qed
  from ring_selected_polls [OF d dm, of runs]
  have a: "backend (polls runs (snd (poll run s))) = Some Dmesg"
    and b: "dmesg (polls runs (snd (poll run s))) \<noteq> None" by simp_all
  from ring_selected_stays [OF a b, of run'] a show ?thesis by simp
qed

theorem demotion_sticky_witness:
  "backend (polls [\<lambda>argv. Some (py ''j1\<newline>'')]
             (init 2 (Some (py ''/bin/journalctl'')) (Some (py ''/bin/dmesg'')))) = Some Journal
   \<and> backend (snd (poll (\<lambda>argv. None) (polls [\<lambda>argv. Some (py ''j1\<newline>'')]
             (init 2 (Some (py ''/bin/journalctl'')) (Some (py ''/bin/dmesg'')))))) = Some Dmesg
   \<and> backend (polls [\<lambda>argv. Some (py ''j1\<newline>''), \<lambda>argv. None]
        (snd (poll (\<lambda>argv. None) (polls [\<lambda>argv. Some (py ''j1\<newline>'')]
             (init 2 (Some (py ''/bin/journalctl'')) (Some (py ''/bin/dmesg''))))))) = Some Dmesg"
proof -
  let ?S = "polls [\<lambda>argv. Some (py ''j1\<newline>'')]
             (init 2 (Some (py ''/bin/journalctl'')) (Some (py ''/bin/dmesg'')))"
  have j: "backend ?S = Some Journal" by (simp add: text_defs feed_defs)
  have d: "backend (snd (poll (\<lambda>argv. None) ?S)) = Some Dmesg" by (simp add: text_defs feed_defs)
  from demotion_sticky [OF j d, of "[\<lambda>argv. Some (py ''j1\<newline>''), \<lambda>argv. None]"] j d
  show ?thesis by simp
qed

section \<open>Failover\<close>

lemma poll_dmesg_forced:
  "snd (fst (poll_dmesg run True s))"
  by (auto simp: poll_dmesg_def try_candidates_eq dmesg_refill_def Let_def split: option.splits)

lemma poll_dmesg_invoked:
  "dmesg s = Some d \<Longrightarrow>
     invoked (snd (poll_dmesg run fr s)) = invoked s @ attempts run (dmesg_candidates d)"
  by (auto simp: poll_dmesg_def try_candidates_eq dmesg_refill_def Let_def split: option.splits)

lemma length_journal_argv: "length (journal_argv s) = 9"
  by (simp add: journal_argv_def split: option.splits)

lemma journal_argv_not_candidate: "journal_argv s \<notin> set (attempts run (dmesg_candidates d))"
proof
  assume "journal_argv s \<in> set (attempts run (dmesg_candidates d))"
  with attempts_subset [of run "dmesg_candidates d"]
  have "journal_argv s \<in> set (dmesg_candidates d)" by blast
  then have "length (journal_argv s) \<le> 4" by (auto simp: dmesg_candidates_def)
  then show False by (simp add: length_journal_argv)
qed

text \<open>
  C2, as stated, fails: a failed fetch does not always demote the selection. Here the ring
  buffer is selected and every candidate command fails; the poll clears the buffer and
  returns \<open>([], True)\<close>, and the ring buffer is still selected afterwards, so the next
  poll tries the same tool again.
\<close>

theorem failover_counterexample:
  "backend (polls [\<lambda>argv. Some (py ''r1\<newline>'')] (init 2 None (Some (py ''/bin/dmesg'')))) = Some Dmesg
   \<and> first_ok (\<lambda>argv. None) (dmesg_candidates (py ''/bin/dmesg'')) = None
   \<and> poll (\<lambda>argv. None) (polls [\<lambda>argv. Some (py ''r1\<newline>'')] (init 2 None (Some (py ''/bin/dmesg''))))
       = (([], True),
          (polls [\<lambda>argv. Some (py ''r1\<newline>'')] (init 2 None (Some (py ''/bin/dmesg''))))
            \<lparr>invoked := invoked (polls [\<lambda>argv. Some (py ''r1\<newline>'')] (init 2 None (Some (py ''/bin/dmesg''))))
                         @ dmesg_candidates (py ''/bin/dmesg''),
             buffer := [], dmesg_tail := None\<rparr>)
   \<and> backend (snd (poll (\<lambda>argv. None)
        (polls [\<lambda>argv. Some (py ''r1\<newline>'')] (init 2 None (Some (py ''/bin/dmesg'')))))) \<noteq> None"
proof -
  let ?S = "polls [\<lambda>argv. Some (py ''r1\<newline>'')] (init 2 None (Some (py ''/bin/dmesg'')))"
  have b: "backend ?S = Some Dmesg" by (simp add: text_defs feed_defs)
  have d: "dmesg ?S = Some (py ''/bin/dmesg'')" by (simp add: text_defs feed_defs)
  have f: "first_ok (\<lambda>argv. None) (dmesg_candidates (py ''/bin/dmesg'')) = None"
    by (simp add: dmesg_candidates_def)
  from b have sel: "select_backend ?S = Some ?S" by (simp add: select_backend_chosen)
  from d have "dmesg ?S \<noteq> None" by simp
  from poll_ring [OF sel b this] have "poll (\<lambda>argv. None) ?S = poll_dmesg (\<lambda>argv. None) False ?S" .
  also note poll_dmesg_fail [OF d f]
  finally have e: "poll (\<lambda>argv. None) ?S = (([], True),
      ?S\<lparr>invoked := invoked ?S @ dmesg_candidates (py ''/bin/dmesg''), buffer := [], dmesg_tail := None\<rparr>)" .
  then have "backend (snd (poll (\<lambda>argv. None) ?S)) = Some Dmesg" using b by simp
  with b f e show ?thesis by simp
qed

text \<open>
  C2, amended. Let \<open>s1\<close> be the feed after the selection block of \<open>poll\<close>.
  If the journal is selected, its invocation fails and the ring-buffer tool is present,
  the poll is exactly a forced-reset ring-buffer fetch on the feed with the selection set
  to the ring buffer and the cursor dropped; it returns \<open>reset = True\<close>, leaves the ring
  buffer selected, and invokes the journal command once, followed only by ring-buffer
  candidates. If the journal fails and there is no ring-buffer tool, or if the selected
  ring buffer fails, the poll clears the buffer, returns \<open>([], True)\<close> and keeps the
  selection.
\<close>

theorem failover:
  assumes sel: "select_backend s = Some s1"
  shows "(backend s1 = Some Journal \<and> journalctl s1 \<noteq> None \<and> run (journal_argv s1) = None
          \<and> dmesg s1 = Some d \<longrightarrow>
            poll run s = poll_dmesg run True
               (s1\<lparr>invoked := invoked s1 @ [journal_argv s1], backend := Some Dmesg, cursor := None\<rparr>)
            \<and> snd (fst (poll run s))
            \<and> backend (snd (poll run s)) = Some Dmesg
            \<and> invoked (snd (poll run s))
                = invoked s @ journal_argv s1 # attempts run (dmesg_candidates d)
            \<and> journal_argv s1 \<notin> set (attempts run (dmesg_candidates d)))
       \<and> (backend s1 = Some Journal \<and> journalctl s1 \<noteq> None \<and> run (journal_argv s1) = None
          \<and> dmesg s1 = None \<longrightarrow>
            poll run s = (([], True),
               s1\<lparr>invoked := invoked s1 @ [journal_argv s1], buffer := [], cursor := None\<rparr>)
            \<and> backend (snd (poll run s)) = Some Journal)
       \<and> (backend s1 = Some Dmesg \<and> dmesg s1 = Some d
          \<and> first_ok run (dmesg_candidates d) = None \<longrightarrow>
            poll run s = (([], True),
               s1\<lparr>invoked := invoked s1 @ dmesg_candidates d, buffer := [], dmesg_tail := None\<rparr>)
            \<and> backend (snd (poll run s)) = Some Dmesg)"
proof (intro conjI impI)
  note fr = select_backend_frame [OF sel]
  {
    assume a: "backend s1 = Some Journal \<and> journalctl s1 \<noteq> None \<and> run (journal_argv s1) = None
          \<and> dmesg s1 = Some d"
    let ?s2 = "s1\<lparr>invoked := invoked s1 @ [journal_argv s1], backend := Some Dmesg, cursor := None\<rparr>"
    from a have "poll run s = poll_journalctl run s1" using poll_journal [OF sel] by simp
    also from a have "\<dots> = poll_dmesg run True ?s2" by (simp add: poll_journalctl_fail_dmesg)
    finally show e: "poll run s = poll_dmesg run True ?s2" .
    show "snd (fst (poll run s))" unfolding e by (rule poll_dmesg_forced)
    show "backend (snd (poll run s)) = Some Dmesg"
      unfolding e using poll_dmesg_frame [of run True ?s2] by simp
    have "dmesg ?s2 = Some d" using a by simp
    from poll_dmesg_invoked [OF this, of run True]
    show "invoked (snd (poll run s)) = invoked s @ journal_argv s1 # attempts run (dmesg_candidates d)"
      unfolding e using fr by simp
    show "journal_argv s1 \<notin> set (attempts run (dmesg_candidates d))"
      by (rule journal_argv_not_candidate)
  }
  {
    assume a: "backend s1 = Some Journal \<and> journalctl s1 \<noteq> None \<and> run (journal_argv s1) = None
          \<and> dmesg s1 = None"
    then have "poll run s = poll_journalctl run s1" using poll_journal [OF sel] by simp
    with a show e: "poll run s = (([], True),
               s1\<lparr>invoked := invoked s1 @ [journal_argv s1], buffer := [], cursor := None\<rparr>)"
      by (simp add: poll_journalctl_fail_alone)
    from a show "backend (snd (poll run s)) = Some Journal" unfolding e by simp
  }
  {
    assume a: "backend s1 = Some Dmesg \<and> dmesg s1 = Some d
          \<and> first_ok run (dmesg_candidates d) = None"
    then have "poll run s = poll_dmesg run False s1" using poll_ring [OF sel] by simp
    with a show e: "poll run s = (([], True),
               s1\<lparr>invoked := invoked s1 @ dmesg_candidates d, buffer := [], dmesg_tail := None\<rparr>)"
      by (simp add: poll_dmesg_fail)
    from a show "backend (snd (poll run s)) = Some Dmesg" unfolding e by simp
  }
qed

theorem failover_witness:
  "fst (poll (\<lambda>argv. if length argv = 9 then None else Some (py ''r1\<newline>''))
        (init 2 (Some (py ''/bin/journalctl'')) (Some (py ''/bin/dmesg'')))) = ([py ''r1''], True)
   \<and> backend (snd (poll (\<lambda>argv. if length argv = 9 then None else Some (py ''r1\<newline>''))
        (init 2 (Some (py ''/bin/journalctl'')) (Some (py ''/bin/dmesg''))))) = Some Dmesg
   \<and> fst (poll (\<lambda>argv. None) (init 2 (Some (py ''/bin/journalctl'')) None)) = ([], True)
   \<and> backend (snd (poll (\<lambda>argv. None) (init 2 (Some (py ''/bin/journalctl'')) None))) = Some Journal
   \<and> fst (poll (\<lambda>argv. None) (init 2 None (Some (py ''/bin/dmesg'')))) = ([], True)
   \<and> backend (snd (poll (\<lambda>argv. None) (init 2 None (Some (py ''/bin/dmesg''))))) = Some Dmesg"
proof -
  let ?A = "init 2 (Some (py ''/bin/journalctl'')) (Some (py ''/bin/dmesg''))"
  let ?B = "init 2 (Some (py ''/bin/journalctl'')) None"
  let ?C = "init 2 None (Some (py ''/bin/dmesg''))"
  let ?run = "\<lambda>argv::pystr list. if length argv = 9 then None else Some (py ''r1\<newline>'')"
  let ?fail = "\<lambda>argv::pystr list. None :: pystr option"
  have selA: "select_backend ?A = Some (?A\<lparr>backend := Some Journal\<rparr>)"
    by (simp add: select_backend_def init_def)
  have selB: "select_backend ?B = Some (?B\<lparr>backend := Some Journal\<rparr>)"
    by (simp add: select_backend_def init_def)
  have selC: "select_backend ?C = Some (?C\<lparr>backend := Some Dmesg\<rparr>)"
    by (simp add: select_backend_def init_def)
  have argv: "journal_argv (?A\<lparr>backend := Some Journal\<rparr>) = journal_argv ?A"
    by (rule journal_argv_select [OF selA])
  have preA: "backend (?A\<lparr>backend := Some Journal\<rparr>) = Some Journal
      \<and> journalctl (?A\<lparr>backend := Some Journal\<rparr>) \<noteq> None
      \<and> ?run (journal_argv (?A\<lparr>backend := Some Journal\<rparr>)) = None
      \<and> dmesg (?A\<lparr>backend := Some Journal\<rparr>) = Some (py ''/bin/dmesg'')"
    by (simp add: length_journal_argv) (simp add: init_def)
  note a = failover [OF selA, of ?run "py ''/bin/dmesg''", THEN conjunct1, rule_format, OF preA]
  have preB: "backend (?B\<lparr>backend := Some Journal\<rparr>) = Some Journal
      \<and> journalctl (?B\<lparr>backend := Some Journal\<rparr>) \<noteq> None
      \<and> ?fail (journal_argv (?B\<lparr>backend := Some Journal\<rparr>)) = None
      \<and> dmesg (?B\<lparr>backend := Some Journal\<rparr>) = None"
    by (simp add: init_def)
  note b = failover [OF selB, of ?fail undefined, THEN conjunct2, THEN conjunct1, rule_format, OF preB]
  have preC: "backend (?C\<lparr>backend := Some Dmesg\<rparr>) = Some Dmesg
      \<and> dmesg (?C\<lparr>backend := Some Dmesg\<rparr>) = Some (py ''/bin/dmesg'')
      \<and> first_ok ?fail (dmesg_candidates (py ''/bin/dmesg'')) = None"
    by (simp add: init_def dmesg_candidates_def)
  note c = failover [OF selC, of ?fail "py ''/bin/dmesg''", THEN conjunct2, THEN conjunct2, rule_format, OF preC]
  let ?A2 = "?A\<lparr>backend := Some Journal\<rparr>
            \<lparr>invoked := invoked (?A\<lparr>backend := Some Journal\<rparr>)
                          @ [journal_argv (?A\<lparr>backend := Some Journal\<rparr>)],
             backend := Some Dmesg, cursor := None\<rparr>"
  from a have a1: "poll ?run ?A = poll_dmesg ?run True ?A2" by (rule conjunct1)
  have a2: "fst (poll_dmesg ?run True ?A2) = ([py ''r1''], True)"
    by (simp add: text_defs feed_defs)
  have a3: "fst (poll ?run ?A) = ([py ''r1''], True)" by (simp only: a1 a2)
  from a have a4: "backend (snd (poll ?run ?A)) = Some Dmesg" by blast
  from b have b1: "fst (poll ?fail ?B) = ([], True)"
    and b2: "backend (snd (poll ?fail ?B)) = Some Journal" by simp_all
  from c have c1: "fst (poll ?fail ?C) = ([], True)"
    and c2: "backend (snd (poll ?fail ?C)) = Some Dmesg" by simp_all
  from a3 a4 b1 b2 c1 c2 show ?thesis by blast
qed

section \<open>What a failed fetch does to the state\<close>

text \<open>
  C6, as stated, fails: a failed fetch does not leave the state as it was. Here the ring
  buffer holds two lines and a tail marker; the next poll finds every candidate command
  failing, and afterwards the buffer is empty and the marker is gone.
\<close>

theorem failed_fetch_counterexample:
  "buffer (polls [\<lambda>argv. Some (py ''r1\<newline>r2\<newline>'')] (init 5 None (Some (py ''/bin/dmesg''))))
     = [py ''r1'', py ''r2'']
   \<and> dmesg_tail (polls [\<lambda>argv. Some (py ''r1\<newline>r2\<newline>'')] (init 5 None (Some (py ''/bin/dmesg''))))
     = Some (py ''r2'')
   \<and> buffer (snd (poll (\<lambda>argv. None)
        (polls [\<lambda>argv. Some (py ''r1\<newline>r2\<newline>'')] (init 5 None (Some (py ''/bin/dmesg'')))))) = []
   \<and> dmesg_tail (snd (poll (\<lambda>argv. None)
        (polls [\<lambda>argv. Some (py ''r1\<newline>r2\<newline>'')] (init 5 None (Some (py ''/bin/dmesg'')))))) = None
   \<and> buffer (snd (poll (\<lambda>argv. None)
        (polls [\<lambda>argv. Some (py ''r1\<newline>r2\<newline>'')] (init 5 None (Some (py ''/bin/dmesg''))))))
     \<noteq> buffer (polls [\<lambda>argv. Some (py ''r1\<newline>r2\<newline>'')] (init 5 None (Some (py ''/bin/dmesg''))))"
proof -
  let ?S = "polls [\<lambda>argv. Some (py ''r1\<newline>r2\<newline>'')] (init 5 None (Some (py ''/bin/dmesg'')))"
  have b: "buffer ?S = [py ''r1'', py ''r2'']" by (simp add: text_defs feed_defs)
  have t: "dmesg_tail ?S = Some (py ''r2'')" by (simp add: text_defs feed_defs)
  have b': "buffer (snd (poll (\<lambda>argv. None) ?S)) = []" by (simp add: text_defs feed_defs)
  have t': "dmesg_tail (snd (poll (\<lambda>argv. None) ?S)) = None" by (simp add: text_defs feed_defs)
  from b t b' t' show ?thesis by simp
qed

text \<open>
  C6, amended. Let \<open>s1\<close> be the feed after the selection block of \<open>poll\<close>. A fetch that
  fails is treated as a normal failure and is never a partial success: the poll returns
  \<open>reset = True\<close> and its lines are the whole buffer afterwards. The state is not kept:
  a failing ring buffer clears the buffer and its tail marker (cursor and journal tail stay);
  a failing journal without a ring-buffer tool clears the buffer and the cursor (both tails
  stay); a failing journal with a ring-buffer tool drops the cursor and replaces the buffer
  by the forced ring-buffer fetch: empty with no marker when that fails too, else the last
  \<open>L\<close> lines of the ring-buffer window with the marker at its last line.
\<close>

theorem failed_fetch_state:
  assumes sel: "select_backend s = Some s1"
  shows "(backend s1 = Some Dmesg \<and> dmesg s1 = Some d
          \<and> first_ok run (dmesg_candidates d) = None \<longrightarrow>
            fst (poll run s) = ([], True) \<and> buffer (snd (poll run s)) = []
            \<and> dmesg_tail (snd (poll run s)) = None
            \<and> cursor (snd (poll run s)) = cursor s
            \<and> journal_tail (snd (poll run s)) = journal_tail s)
       \<and> (backend s1 = Some Journal \<and> journalctl s1 \<noteq> None \<and> run (journal_argv s1) = None
          \<and> dmesg s1 = None \<longrightarrow>
            fst (poll run s) = ([], True) \<and> buffer (snd (poll run s)) = []
            \<and> cursor (snd (poll run s)) = None
            \<and> journal_tail (snd (poll run s)) = journal_tail s
            \<and> dmesg_tail (snd (poll run s)) = dmesg_tail s)
       \<and> (backend s1 = Some Journal \<and> journalctl s1 \<noteq> None \<and> run (journal_argv s1) = None
          \<and> dmesg s1 = Some d \<and> first_ok run (dmesg_candidates d) = None \<longrightarrow>
            fst (poll run s) = ([], True) \<and> buffer (snd (poll run s)) = []
            \<and> cursor (snd (poll run s)) = None
            \<and> dmesg_tail (snd (poll run s)) = None)
       \<and> (backend s1 = Some Journal \<and> journalctl s1 \<noteq> None \<and> run (journal_argv s1) = None
          \<and> dmesg s1 = Some d \<and> first_ok run (dmesg_candidates d) = Some out
          \<and> 1 \<le> limit s \<longrightarrow>
            fst (poll run s) = (keep_last (limit s) (dmesg_lines out), True)
            \<and> buffer (snd (poll run s)) = keep_last (limit s) (dmesg_lines out)
            \<and> cursor (snd (poll run s)) = None
            \<and> dmesg_tail (snd (poll run s)) = last_or_none (keep_last (limit s) (dmesg_lines out)))"
proof (intro conjI impI)
  note fr = select_backend_frame [OF sel]
  {
    assume a: "backend s1 = Some Dmesg \<and> dmesg s1 = Some d
          \<and> first_ok run (dmesg_candidates d) = None"
    then have "poll run s = poll_dmesg run False s1" using poll_ring [OF sel] by simp
    with a have e: "poll run s = (([], True),
               s1\<lparr>invoked := invoked s1 @ dmesg_candidates d, buffer := [], dmesg_tail := None\<rparr>)"
      by (simp add: poll_dmesg_fail)
    show "fst (poll run s) = ([], True)" "buffer (snd (poll run s)) = []"
      "dmesg_tail (snd (poll run s)) = None" "cursor (snd (poll run s)) = cursor s"
      "journal_tail (snd (poll run s)) = journal_tail s"
      unfolding e using fr by simp_all
  }
  {
    assume a: "backend s1 = Some Journal \<and> journalctl s1 \<noteq> None \<and> run (journal_argv s1) = None
          \<and> dmesg s1 = None"
    then have "poll run s = poll_journalctl run s1" using poll_journal [OF sel] by simp
    with a have e: "poll run s = (([], True),
               s1\<lparr>invoked := invoked s1 @ [journal_argv s1], buffer := [], cursor := None\<rparr>)"
      by (simp add: poll_journalctl_fail_alone)
    show "fst (poll run s) = ([], True)" "buffer (snd (poll run s)) = []"
      "cursor (snd (poll run s)) = None" "journal_tail (snd (poll run s)) = journal_tail s"
      "dmesg_tail (snd (poll run s)) = dmesg_tail s"
      unfolding e using fr by simp_all
  }
  {
    assume a: "backend s1 = Some Journal \<and> journalctl s1 \<noteq> None \<and> run (journal_argv s1) = None
          \<and> dmesg s1 = Some d \<and> first_ok run (dmesg_candidates d) = None"
    let ?s2 = "s1\<lparr>invoked := invoked s1 @ [journal_argv s1], backend := Some Dmesg, cursor := None\<rparr>"
    from a have "poll run s = poll_journalctl run s1" using poll_journal [OF sel] by simp
    also from a have "\<dots> = poll_dmesg run True ?s2" by (simp add: poll_journalctl_fail_dmesg)
    also from a have "\<dots> = (([], True),
         ?s2\<lparr>invoked := invoked ?s2 @ dmesg_candidates d, buffer := [], dmesg_tail := None\<rparr>)"
      by (intro poll_dmesg_fail) simp_all
    finally have e: "poll run s = (([], True),
         ?s2\<lparr>invoked := invoked ?s2 @ dmesg_candidates d, buffer := [], dmesg_tail := None\<rparr>)" .
    show "fst (poll run s) = ([], True)" "buffer (snd (poll run s)) = []"
      "cursor (snd (poll run s)) = None" "dmesg_tail (snd (poll run s)) = None"
      unfolding e by simp_all
  }
  {
    assume a: "backend s1 = Some Journal \<and> journalctl s1 \<noteq> None \<and> run (journal_argv s1) = None
          \<and> dmesg s1 = Some d \<and> first_ok run (dmesg_candidates d) = Some out \<and> 1 \<le> limit s"
    let ?s2 = "s1\<lparr>invoked := invoked s1 @ [journal_argv s1], backend := Some Dmesg, cursor := None\<rparr>"
    let ?K = "keep_last (limit ?s2) (dmesg_lines out)"
    have d2: "dmesg ?s2 = Some d" and o2: "first_ok run (dmesg_candidates d) = Some out"
      and L2: "1 \<le> limit ?s2" using a fr by simp_all
    have r: "True \<or> dmesg_tail ?s2 = None
             \<or> (\<exists>m. dmesg_tail ?s2 = Some m \<and> m \<notin> set (dmesg_lines out))" by simp
    from a have "poll run s = poll_journalctl run s1" using poll_journal [OF sel] by simp
    also from a have "\<dots> = poll_dmesg run True ?s2" by (simp add: poll_journalctl_fail_dmesg)
    also note poll_dmesg_reset [OF d2 o2 L2 r]
    finally have e: "poll run s = ((?K, True),
         ?s2\<lparr>invoked := invoked ?s2 @ attempts run (dmesg_candidates d), buffer := ?K,
              dmesg_tail := last_or_none ?K\<rparr>)" .
    have K: "?K = keep_last (limit s) (dmesg_lines out)" using fr by simp
    show "fst (poll run s) = (keep_last (limit s) (dmesg_lines out), True)"
      "buffer (snd (poll run s)) = keep_last (limit s) (dmesg_lines out)"
      "cursor (snd (poll run s)) = None"
      "dmesg_tail (snd (poll run s)) = last_or_none (keep_last (limit s) (dmesg_lines out))"
      unfolding e K [symmetric] by simp_all
  }
qed

theorem failed_fetch_state_witness:
  "buffer (polls [\<lambda>argv. Some (py ''q1\<newline>q2\<newline>'')] (init 4 None (Some (py ''/bin/dmesg''))))
     = [py ''q1'', py ''q2'']
   \<and> fst (poll (\<lambda>argv. None)
        (polls [\<lambda>argv. Some (py ''q1\<newline>q2\<newline>'')] (init 4 None (Some (py ''/bin/dmesg''))))) = ([], True)
   \<and> buffer (snd (poll (\<lambda>argv. None)
        (polls [\<lambda>argv. Some (py ''q1\<newline>q2\<newline>'')] (init 4 None (Some (py ''/bin/dmesg'')))))) = []
   \<and> fst (poll (\<lambda>argv. None) (init 4 (Some (py ''/bin/journalctl'')) None)) = ([], True)
   \<and> cursor (snd (poll (\<lambda>argv. None) (init 4 (Some (py ''/bin/journalctl'')) None))) = None
   \<and> fst (poll (\<lambda>argv. None) (init 4 (Some (py ''/bin/journalctl'')) (Some (py ''/bin/dmesg''))))
       = ([], True)
   \<and> fst (poll (\<lambda>argv. if length argv = 9 then None else Some (py ''q3\<newline>''))
        (init 4 (Some (py ''/bin/journalctl'')) (Some (py ''/bin/dmesg'')))) = ([py ''q3''], True)
   \<and> buffer (snd (poll (\<lambda>argv. if length argv = 9 then None else Some (py ''q3\<newline>''))
        (init 4 (Some (py ''/bin/journalctl'')) (Some (py ''/bin/dmesg''))))) = [py ''q3'']"
proof -
  let ?S = "polls [\<lambda>argv. Some (py ''q1\<newline>q2\<newline>'')] (init 4 None (Some (py ''/bin/dmesg'')))"
  let ?B = "init 4 (Some (py ''/bin/journalctl'')) None"
  let ?A = "init 4 (Some (py ''/bin/journalctl'')) (Some (py ''/bin/dmesg''))"
  let ?run = "\<lambda>argv::pystr list. if length argv = 9 then None else Some (py ''q3\<newline>'')"
  let ?fail = "\<lambda>argv::pystr list. None :: pystr option"
  have bS: "buffer ?S = [py ''q1'', py ''q2'']" by (simp add: text_defs feed_defs)
  have kS: "backend ?S = Some Dmesg" by (simp add: text_defs feed_defs)
  have dS: "dmesg ?S = Some (py ''/bin/dmesg'')" by (simp add: text_defs feed_defs)
  from kS have selS: "select_backend ?S = Some ?S" by (simp add: select_backend_chosen)
  have selA: "select_backend ?A = Some (?A\<lparr>backend := Some Journal\<rparr>)"
    by (simp add: select_backend_def init_def)
  have selB: "select_backend ?B = Some (?B\<lparr>backend := Some Journal\<rparr>)"
    by (simp add: select_backend_def init_def)
  have f: "first_ok ?fail (dmesg_candidates (py ''/bin/dmesg'')) = None"
    by (simp add: dmesg_candidates_def)
  have g: "first_ok ?run (dmesg_candidates (py ''/bin/dmesg'')) = Some (py ''q3\<newline>'')"
    by (simp add: dmesg_candidates_def)
  have W: "dmesg_lines (py ''q3\<newline>'') = [py ''q3'']" by (simp add: text_defs feed_defs)
  have preS: "backend ?S = Some Dmesg \<and> dmesg ?S = Some (py ''/bin/dmesg'')
      \<and> first_ok ?fail (dmesg_candidates (py ''/bin/dmesg'')) = None"
    using kS dS f by blast
  note a = failed_fetch_state [OF selS, of "py ''/bin/dmesg''" ?fail undefined,
      THEN conjunct1, rule_format, OF preS]
  have preB: "backend (?B\<lparr>backend := Some Journal\<rparr>) = Some Journal
      \<and> journalctl (?B\<lparr>backend := Some Journal\<rparr>) \<noteq> None
      \<and> ?fail (journal_argv (?B\<lparr>backend := Some Journal\<rparr>)) = None
      \<and> dmesg (?B\<lparr>backend := Some Journal\<rparr>) = None"
    by (simp add: init_def)
  note b = failed_fetch_state [OF selB, of undefined ?fail undefined,
      THEN conjunct2, THEN conjunct1, rule_format, OF preB]
  have preC: "backend (?A\<lparr>backend := Some Journal\<rparr>) = Some Journal
      \<and> journalctl (?A\<lparr>backend := Some Journal\<rparr>) \<noteq> None
      \<and> ?fail (journal_argv (?A\<lparr>backend := Some Journal\<rparr>)) = None
      \<and> dmesg (?A\<lparr>backend := Some Journal\<rparr>) = Some (py ''/bin/dmesg'')
      \<and> first_ok ?fail (dmesg_candidates (py ''/bin/dmesg'')) = None"
    using f by (simp add: init_def)
  note c = failed_fetch_state [OF selA, of "py ''/bin/dmesg''" ?fail undefined,
      THEN conjunct2, THEN conjunct2, THEN conjunct1, rule_format, OF preC]
  have preD: "backend (?A\<lparr>backend := Some Journal\<rparr>) = Some Journal
      \<and> journalctl (?A\<lparr>backend := Some Journal\<rparr>) \<noteq> None
      \<and> ?run (journal_argv (?A\<lparr>backend := Some Journal\<rparr>)) = None
      \<and> dmesg (?A\<lparr>backend := Some Journal\<rparr>) = Some (py ''/bin/dmesg'')
      \<and> first_ok ?run (dmesg_candidates (py ''/bin/dmesg'')) = Some (py ''q3\<newline>'')
      \<and> 1 \<le> limit ?A"
    using g by (simp add: length_journal_argv) (simp add: init_def)
  note d = failed_fetch_state [OF selA, of "py ''/bin/dmesg''" ?run "py ''q3\<newline>''",
      THEN conjunct2, THEN conjunct2, THEN conjunct2, rule_format, OF preD]
  have K: "keep_last (limit ?A) (dmesg_lines (py ''q3\<newline>'')) = [py ''q3'']"
    unfolding W by (simp add: keep_last_def init_def)
  from a have a1: "fst (poll ?fail ?S) = ([], True)" and a2: "buffer (snd (poll ?fail ?S)) = []"
    by blast+
  from b have b1: "fst (poll ?fail ?B) = ([], True)" and b2: "cursor (snd (poll ?fail ?B)) = None"
    by blast+
  from c have c1: "fst (poll ?fail ?A) = ([], True)" by blast
  from d have d1: "fst (poll ?run ?A) = ([py ''q3''], True)"
    and d2: "buffer (snd (poll ?run ?A)) = [py ''q3'']" unfolding K by blast+
  from bS a1 a2 b1 b2 c1 d1 d2 show ?thesis by blast
qed

section \<open>A journal poll whose output has no trailer\<close>

lemma extract_cursor_loop_no_trailer:
  "\<forall>ln\<in>set xs. \<not> startswith ln cursor_prefix \<Longrightarrow> extract_cursor_loop xs = None"
  by (induction xs) simp_all

lemma extract_cursor_no_trailer:
  "\<forall>ln\<in>set raw. \<not> startswith ln cursor_prefix \<Longrightarrow> extract_cursor raw = None"
  by (simp add: extract_cursor_def extract_cursor_loop_no_trailer)

lemma poll_journalctl_with_cursor:
  assumes c: "truthy (cursor s)" and out: "run (journal_argv s) = Some out"
  shows "poll_journalctl run s =
           ((filter_journal_lines (splitlines out), False),
            s\<lparr>invoked := invoked s @ [journal_argv s],
              cursor := (if truthy (extract_cursor (splitlines out))
                         then extract_cursor (splitlines out) else cursor s),
              buffer := append_all (limit s) (buffer s) (filter_journal_lines (splitlines out)),
              journal_tail :=
                (if filter_journal_lines (splitlines out) \<noteq> []
                 then last_or_none
                        (append_all (limit s) (buffer s) (filter_journal_lines (splitlines out)))
                 else journal_tail s)\<rparr>)"
  using assms by (simp add: poll_journalctl_def check_output_def Let_def)

text \<open>
  C8, as stated, fails in its second half. The feed holds the cursor \<open>ABC\<close>; the tool
  succeeds and prints one line and no trailer. The cursor stays \<open>ABC\<close>, but the poll
  reports that line as new: it does not report zero lines.
\<close>

theorem no_trailer_counterexample:
  "cursor (polls [\<lambda>argv. Some (py ''a1\<newline>-- cursor: ABC\<newline>'')]
            (init 3 (Some (py ''/bin/journalctl'')) None)) = Some (py ''ABC'')
   \<and> splitlines (py ''b1\<newline>'') = [py ''b1'']
   \<and> \<not> startswith (py ''b1'') cursor_prefix
   \<and> fst (poll (\<lambda>argv. Some (py ''b1\<newline>''))
        (polls [\<lambda>argv. Some (py ''a1\<newline>-- cursor: ABC\<newline>'')]
            (init 3 (Some (py ''/bin/journalctl'')) None))) = ([py ''b1''], False)
   \<and> cursor (snd (poll (\<lambda>argv. Some (py ''b1\<newline>''))
        (polls [\<lambda>argv. Some (py ''a1\<newline>-- cursor: ABC\<newline>'')]
            (init 3 (Some (py ''/bin/journalctl'')) None)))) = Some (py ''ABC'')
   \<and> fst (fst (poll (\<lambda>argv. Some (py ''b1\<newline>''))
        (polls [\<lambda>argv. Some (py ''a1\<newline>-- cursor: ABC\<newline>'')]
            (init 3 (Some (py ''/bin/journalctl'')) None)))) \<noteq> []"
proof -
  let ?S = "polls [\<lambda>argv. Some (py ''a1\<newline>-- cursor: ABC\<newline>'')]
            (init 3 (Some (py ''/bin/journalctl'')) None)"
  have c: "cursor ?S = Some (py ''ABC'')" by (simp add: text_defs feed_defs)
  have sp: "splitlines (py ''b1\<newline>'') = [py ''b1'']" by (simp add: text_defs)
  have st: "\<not> startswith (py ''b1'') cursor_prefix" by (simp add: text_defs)
  have r: "fst (poll (\<lambda>argv. Some (py ''b1\<newline>'')) ?S) = ([py ''b1''], False)"
    by (simp add: text_defs feed_defs)
  have c': "cursor (snd (poll (\<lambda>argv. Some (py ''b1\<newline>'')) ?S)) = Some (py ''ABC'')"
    by (simp add: text_defs feed_defs)
  from c sp st r c' show ?thesis by simp
qed

text \<open>
  C8, amended. For a journal poll made with a cursor, if the invocation succeeds and no
  line of the output is a trailer, the cursor is unchanged and the poll returns, with
  \<open>reset = False\<close>, exactly the filtered lines of the output, which it appends to the
  buffer; when the output has no such line it returns \<open>([], False)\<close> and the buffer is
  unchanged.
\<close>

theorem no_trailer_keeps_cursor:
  assumes sel: "select_backend s = Some s1" and j: "backend s1 = Some Journal"
    and t: "journalctl s1 \<noteq> None" and c: "truthy (cursor s)"
    and out: "run (journal_argv s1) = Some out"
    and nt: "\<forall>ln\<in>set (splitlines out). \<not> startswith ln cursor_prefix"
  shows "cursor (snd (poll run s)) = cursor s
         \<and> fst (poll run s) = (filter_journal_lines (splitlines out), False)
         \<and> buffer (snd (poll run s))
             = append_all (limit s) (buffer s) (filter_journal_lines (splitlines out))
         \<and> (filter_journal_lines (splitlines out) = [] \<longrightarrow>
              fst (poll run s) = ([], False) \<and> buffer (snd (poll run s)) = buffer s)"
proof -
  note fr = select_backend_frame [OF sel]
  from c fr have c1: "truthy (cursor s1)" by simp
  have e: "poll run s = poll_journalctl run s1" by (rule poll_journal [OF sel j t])
  from nt have x: "extract_cursor (splitlines out) = None" by (rule extract_cursor_no_trailer)
  note eq = poll_journalctl_with_cursor [of s1 run out, OF c1 out]
  show ?thesis unfolding e eq using fr x by (simp add: append_all_def)
qed

theorem no_trailer_keeps_cursor_witness:
  "cursor (polls [\<lambda>argv. Some (py ''a1\<newline>-- cursor: ABC\<newline>'')]
            (init 3 (Some (py ''/bin/journalctl'')) None)) = Some (py ''ABC'')
   \<and> cursor (snd (poll (\<lambda>argv. Some (py ''-- No entries --\<newline>''))
        (polls [\<lambda>argv. Some (py ''a1\<newline>-- cursor: ABC\<newline>'')]
            (init 3 (Some (py ''/bin/journalctl'')) None)))) = Some (py ''ABC'')
   \<and> fst (poll (\<lambda>argv. Some (py ''-- No entries --\<newline>''))
        (polls [\<lambda>argv. Some (py ''a1\<newline>-- cursor: ABC\<newline>'')]
            (init 3 (Some (py ''/bin/journalctl'')) None))) = ([], False)"
proof -
  let ?S = "polls [\<lambda>argv. Some (py ''a1\<newline>-- cursor: ABC\<newline>'')]
            (init 3 (Some (py ''/bin/journalctl'')) None)"
  let ?run = "\<lambda>argv::pystr list. Some (py ''-- No entries --\<newline>'')"
  have c: "cursor ?S = Some (py ''ABC'')" by (simp add: text_defs feed_defs)
  have k: "backend ?S = Some Journal" by (simp add: text_defs feed_defs)
  have t: "journalctl ?S \<noteq> None" by (simp add: text_defs feed_defs)
  from k have sel: "select_backend ?S = Some ?S" by (simp add: select_backend_chosen)
  from c have tr: "truthy (cursor ?S)" by (simp add: py_def)
  have out: "?run (journal_argv ?S) = Some (py ''-- No entries --\<newline>'')" by simp
  have sp: "splitlines (py ''-- No entries --\<newline>'') = [py ''-- No entries --'']"
    by (simp add: text_defs)
  have nt: "\<forall>ln\<in>set (splitlines (py ''-- No entries --\<newline>'')). \<not> startswith ln cursor_prefix"
    unfolding sp by (simp add: text_defs)
  have fl: "filter_journal_lines (splitlines (py ''-- No entries --\<newline>'')) = []"
    unfolding sp by (simp add: text_defs)
  note th = no_trailer_keeps_cursor [OF sel k t tr out nt]
  from th c fl show ?thesis by simp
qed

section \<open>Quiescence\<close>

lemma find_last_last: "xs \<noteq> [] \<Longrightarrow> find_last xs (last xs) = Some (length xs - 1)"
  by (auto simp: find_last_Some last_conv_nth)

lemma keep_last_nonempty: "1 \<le> L \<Longrightarrow> xs \<noteq> [] \<Longrightarrow> keep_last L xs \<noteq> []"
proof -
  assume "1 \<le> L" and "xs \<noteq> []"
  then have "0 < length xs" and "length xs - L < length xs" by simp_all
  then show ?thesis by (simp add: keep_last_def)
qed

lemma last_keep_last: "1 \<le> L \<Longrightarrow> xs \<noteq> [] \<Longrightarrow> last (keep_last L xs) = last xs"
proof -
  assume "1 \<le> L" and "xs \<noteq> []"
  then have "length xs - L < length xs" by simp
  then show ?thesis by (simp add: keep_last_def last_drop)
qed

lemma last_or_none_keep_last:
  "1 \<le> L \<Longrightarrow> xs \<noteq> [] \<Longrightarrow> last_or_none (keep_last L xs) = Some (last xs)"
  by (simp add: last_or_none_def keep_last_nonempty last_keep_last)

text \<open>A ring-buffer poll whose marker is the last line of the window and of the buffer.\<close>

lemma ring_quiet_step:
  assumes k: "backend s = Some Dmesg" and d: "dmesg s = Some d"
    and out: "first_ok run (dmesg_candidates d) = Some out" and ne: "dmesg_lines out \<noteq> []"
    and m: "dmesg_tail s = Some (last (dmesg_lines out))"
    and b: "last_or_none (buffer s) = Some (last (dmesg_lines out))"
  shows "poll run s = (([], False), s\<lparr>invoked := invoked s @ attempts run (dmesg_candidates d)\<rparr>)"
proof -
  from k have sel: "select_backend s = Some s" by (simp add: select_backend_chosen)
  from d have "dmesg s \<noteq> None" by simp
  from poll_ring [OF sel k this] have "poll run s = poll_dmesg run False s" .
  also note poll_dmesg_delta [OF d out m find_last_last [OF ne]]
  finally show ?thesis using ne b m by (simp add: append_all_def)
qed

text \<open>A journal poll without cursor whose tail is the last line of the output and of the buffer.\<close>

lemma journal_quiet_step:
  assumes k: "backend s = Some Journal" and t: "journalctl s \<noteq> None"
    and nc: "\<not> truthy (cursor s)" and out: "run (journal_argv s) = Some out"
    and nx: "\<not> truthy (extract_cursor (splitlines out))"
    and ne: "filter_journal_lines (splitlines out) \<noteq> []"
    and m: "journal_tail s = Some (last (filter_journal_lines (splitlines out)))"
    and b: "last_or_none (buffer s) = Some (last (filter_journal_lines (splitlines out)))"
  shows "poll run s = (([], False), s\<lparr>invoked := invoked s @ [journal_argv s]\<rparr>)"
proof -
  from k have sel: "select_backend s = Some s" by (simp add: select_backend_chosen)
  from b have bn: "buffer s \<noteq> []" by (auto simp: last_or_none_def split: if_splits)
  have "poll run s = poll_journalctl run s" by (rule poll_journal [OF sel k t])
  also have "\<dots> = (([], False), s\<lparr>invoked := invoked s @ [journal_argv s]\<rparr>)"
    using nc out nx bn m b find_last_last [OF ne]
    by (simp add: poll_journalctl_def check_output_def Let_def append_all_def)
  finally show ?thesis .
qed

lemma journal_argv_cong:
  "journalctl s' = journalctl s \<Longrightarrow> cursor s' = cursor s \<Longrightarrow> limit s' = limit s \<Longrightarrow>
     journal_argv s' = journal_argv s"
  by (simp only: journal_argv_def)

text \<open>The markers stay in step with the buffer through every poll.\<close>

lemma poll_dmesg_marker:
  assumes L: "1 \<le> limit s"
  shows "dmesg_tail (snd (poll_dmesg run fr s)) = last_or_none (buffer (snd (poll_dmesg run fr s)))"
proof (cases "dmesg s")
  case None
  then show ?thesis by (simp add: poll_dmesg_def last_or_none_def)
next
  case (Some d)
  let ?s1 = "s\<lparr>invoked := invoked s @ attempts run (dmesg_candidates d)\<rparr>"
  have L1: "1 \<le> limit ?s1" using L by simp
  show ?thesis
  proof (cases "first_ok run (dmesg_candidates d)")
    case None
    with Some show ?thesis by (simp add: poll_dmesg_fail last_or_none_def)
  next
    case out: (Some out)
    note rf = dmesg_refill_eq [OF L1, of "dmesg_lines out"]
    from Some out rf show ?thesis
      by (auto simp: poll_dmesg_def try_candidates_eq Let_def split: option.splits)
  qed
qed

lemma poll_dmesg_sync:
  assumes ok: "feed_ok s" and k: "backend s = Some Dmesg"
  shows "feed_sync (snd (poll_dmesg run fr s))"
proof -
  obtain l r s' where p: "poll_dmesg run fr s = ((l, r), s')" by (metis surj_pair)
  from poll_dmesg_step [OF ok p]
  have a: "limit s' = limit s" "backend s' = backend s" "length (buffer s') \<le> limit s" by blast+
  with ok k have ok': "feed_ok s'" and k': "backend s' = Some Dmesg" by (simp_all add: feed_ok_def)
  from ok have "1 \<le> limit s" by (simp add: feed_ok_def)
  from poll_dmesg_marker [OF this, of run fr] p
  have "dmesg_tail s' = last_or_none (buffer s')" by simp
  with ok' k' p show ?thesis by (simp add: feed_sync_def)
qed

lemma poll_journalctl_tail:
  assumes out: "run (journal_argv s) = Some out"
    and sy: "buffer s \<noteq> [] \<longrightarrow> journal_tail s = Some (last (buffer s))"
  shows "buffer (snd (poll_journalctl run s)) \<noteq> [] \<longrightarrow>
           journal_tail (snd (poll_journalctl run s)) = Some (last (buffer (snd (poll_journalctl run s))))"
  using out sy
  by (auto simp: poll_journalctl_def check_output_def journal_refill_def Let_def last_or_none_def
        append_all_def split: option.splits)

lemma poll_journalctl_sync:
  assumes sy: "feed_sync s" and k: "backend s = Some Journal"
  shows "feed_sync (snd (poll_journalctl run s))"
proof -
  from sy have ok: "feed_ok s" by (simp add: feed_sync_def)
  show ?thesis
  proof (cases "run (journal_argv s)")
    case None
    show ?thesis
    proof (cases "dmesg s")
      case dn: None
      with None ok k show ?thesis
        by (simp add: poll_journalctl_fail_alone feed_sync_def feed_ok_def)
    next
      case (Some d)
      let ?s2 = "s\<lparr>invoked := invoked s @ [journal_argv s], backend := Some Dmesg, cursor := None\<rparr>"
      have ok2: "feed_ok ?s2" using ok by (simp add: feed_ok_def)
      have k2: "backend ?s2 = Some Dmesg" by simp
      from None Some have "poll_journalctl run s = poll_dmesg run True ?s2"
        by (simp add: poll_journalctl_fail_dmesg)
      with poll_dmesg_sync [OF ok2 k2, of run True] show ?thesis by simp
    qed
  next
    case (Some out)
    obtain l r s' where p: "poll_journalctl run s = ((l, r), s')" by (metis surj_pair)
    from poll_journalctl_step [OF ok p] Some
    have a: "limit s' = limit s" "backend s' = backend s" "length (buffer s') \<le> limit s" by auto
    with ok k have ok': "feed_ok s'" and k': "backend s' = Some Journal"
      by (simp_all add: feed_ok_def)
    from sy k have "buffer s \<noteq> [] \<longrightarrow> journal_tail s = Some (last (buffer s))"
      by (simp add: feed_sync_def)
    from poll_journalctl_tail [of run s out, OF Some this] p
    have "buffer s' \<noteq> [] \<longrightarrow> journal_tail s' = Some (last (buffer s'))" by simp
    with ok' k' p show ?thesis by (simp add: feed_sync_def)
  qed
qed

lemma select_backend_sync:
  assumes sy: "feed_sync s" and sel: "select_backend s = Some s1"
  shows "feed_sync s1"
proof (cases "backend s")
  case None
  with sy have "buffer s = []" "dmesg_tail s = None" "feed_ok s" by (simp_all add: feed_sync_def)
  with sel None show ?thesis
    by (auto simp: select_backend_def feed_sync_def feed_ok_def last_or_none_def split: if_splits)
next
  case (Some b)
  then have "select_backend s = Some s" by (simp add: select_backend_chosen)
  with sel sy show ?thesis by simp
qed

lemma poll_feed_sync:
  assumes sy: "feed_sync s" shows "feed_sync (snd (poll run s))"
proof (cases "select_backend s")
  case None
  with sy show ?thesis by (simp add: poll_def)
next
  case (Some s1)
  note sy1 = select_backend_sync [OF sy Some]
  then have ok1: "feed_ok s1" by (simp add: feed_sync_def)
  consider (j) "backend s1 = Some Journal \<and> journalctl s1 \<noteq> None"
    | (d) "backend s1 = Some Dmesg \<and> dmesg s1 \<noteq> None"
    | (n) "\<not> (backend s1 = Some Journal \<and> journalctl s1 \<noteq> None)"
          "\<not> (backend s1 = Some Dmesg \<and> dmesg s1 \<noteq> None)"
    by blast
  then show ?thesis
  proof cases
    case j
    then have "poll run s = poll_journalctl run s1" using poll_journal [OF Some] by simp
    with poll_journalctl_sync [OF sy1, of run] j show ?thesis by simp
  next
    case d
    then have "poll run s = poll_dmesg run False s1" using poll_ring [OF Some] by simp
    with poll_dmesg_sync [OF ok1, of run False] d show ?thesis by simp
  next
    case n
    with Some ok1 show ?thesis by (auto simp: poll_def feed_sync_def feed_ok_def)
  qed
qed

lemma polls_feed_sync: "feed_sync s \<Longrightarrow> feed_sync (polls runs s)"
  by (induction runs arbitrary: s) (simp_all add: poll_feed_sync)

lemma init_feed_sync: "feed_sync (init lim jc dm)"
  by (simp add: init_def feed_sync_def feed_ok_def)

lemma drop_Suc_empty_last:
  assumes i: "i < length xs" and e: "drop (Suc i) xs = []"
  shows "xs ! i = last xs"
proof -
  from e have "length xs \<le> Suc i" by simp
  with i have "i = length xs - 1" by simp
  moreover from i have "xs \<noteq> []" by auto
  ultimately show ?thesis by (simp add: last_conv_nth)
qed

lemma last_or_none_appended:
  assumes L: "1 \<le> L" and B: "length buf \<le> L" and i: "i < length W"
    and sy: "last_or_none buf = Some (W ! i)"
  shows "last_or_none (append_all L buf (drop (Suc i) W)) = Some (last W)"
proof (cases "drop (Suc i) W = []")
  case True
  from drop_Suc_empty_last [OF i True] sy have "last_or_none buf = Some (last W)" by simp
  with True show ?thesis by (simp add: append_all_def)
next
  case False
  then have n: "buf @ drop (Suc i) W \<noteq> []" by simp
  from False have "Suc i < length W" by simp
  then have "last (drop (Suc i) W) = last W" by (simp add: last_drop)
  with False have "last (buf @ drop (Suc i) W) = last W" by simp
  with last_or_none_keep_last [OF L n] show ?thesis by (simp add: append_all_keep_last [OF B])
qed

text \<open>After any successful ring-buffer fetch the marker is the last line of the window.\<close>

lemma ring_poll_marker:
  assumes ok: "feed_ok s" and d: "dmesg s = Some d"
    and out: "first_ok run (dmesg_candidates d) = Some out" and ne: "dmesg_lines out \<noteq> []"
    and sy: "dmesg_tail s = last_or_none (buffer s)"
  shows "dmesg_tail (snd (poll_dmesg run False s)) = Some (last (dmesg_lines out))
         \<and> last_or_none (buffer (snd (poll_dmesg run False s))) = Some (last (dmesg_lines out))"
proof -
  let ?W = "dmesg_lines out"
  from ok have L: "1 \<le> limit s" and B: "length (buffer s) \<le> limit s"
    by (simp_all add: feed_ok_def)
  have reset: ?thesis
    if c: "False \<or> dmesg_tail s = None \<or> (\<exists>m. dmesg_tail s = Some m \<and> m \<notin> set ?W)"
    using poll_dmesg_reset [OF d out L c] last_or_none_keep_last [OF L ne] by simp
  show ?thesis
  proof (cases "dmesg_tail s")
    case None
    then show ?thesis by (intro reset) simp
  next
    case (Some m)
    show ?thesis
    proof (cases "find_last ?W m")
      case None
      with Some show ?thesis by (intro reset) (simp add: find_last_None)
    next
      case i: (Some i)
      then have il: "i < length ?W" and im: "?W ! i = m" by (simp_all add: find_last_Some)
      from sy Some im have "last_or_none (buffer s) = Some (?W ! i)" by simp
      from last_or_none_appended [OF L B il this] poll_dmesg_delta [OF d out Some i]
      show ?thesis by simp
    qed
  qed
qed

text \<open>The same after any successful journal fetch made and left without a cursor.\<close>

lemma journal_poll_marker:
  assumes ok: "feed_ok s" and nc: "\<not> truthy (cursor s)"
    and out: "run (journal_argv s) = Some out"
    and nx: "\<not> truthy (extract_cursor (splitlines out))"
    and ne: "filter_journal_lines (splitlines out) \<noteq> []"
    and sy: "buffer s \<noteq> [] \<longrightarrow> journal_tail s = Some (last (buffer s))"
  shows "journal_tail (snd (poll_journalctl run s)) = Some (last (filter_journal_lines (splitlines out)))
         \<and> last_or_none (buffer (snd (poll_journalctl run s)))
             = Some (last (filter_journal_lines (splitlines out)))
         \<and> cursor (snd (poll_journalctl run s)) = cursor s
         \<and> backend (snd (poll_journalctl run s)) = backend s
         \<and> journalctl (snd (poll_journalctl run s)) = journalctl s
         \<and> limit (snd (poll_journalctl run s)) = limit s"
proof -
  let ?W = "filter_journal_lines (splitlines out)"
  let ?s1 = "s\<lparr>invoked := invoked s @ [journal_argv s]\<rparr>"
  from ok have L: "1 \<le> limit s" and B: "length (buffer s) \<le> limit s"
    by (simp_all add: feed_ok_def)
  have L1: "1 \<le> limit ?s1" using L by simp
  note rf = journal_refill_eq [OF L1, of ?W]
  note ln = last_or_none_keep_last [OF L ne]
  have reset: ?thesis if e: "poll_journalctl run s = journal_refill ?s1 ?W"
    unfolding e rf using ln by simp
  show ?thesis
  proof (cases "buffer s = []")
    case True
    with nc out nx show ?thesis
      by (intro reset) (simp add: poll_journalctl_def check_output_def Let_def)
  next
    case False
    with sy have jt: "journal_tail s = Some (last (buffer s))" by simp
    show ?thesis
    proof (cases "find_last ?W (last (buffer s))")
      case None
      with False jt nc out nx show ?thesis
        by (intro reset) (simp add: poll_journalctl_def check_output_def Let_def)
    next
      case (Some i)
      then have il: "i < length ?W" and im: "?W ! i = last (buffer s)"
        by (simp_all add: find_last_Some)
      from False im have "last_or_none (buffer s) = Some (?W ! i)" by (simp add: last_or_none_def)
      note ap = last_or_none_appended [OF L B il this]
      have "poll_journalctl run s =
          ((drop (Suc i) ?W, False),
           ?s1\<lparr>buffer := append_all (limit s) (buffer s) (drop (Suc i) ?W),
               journal_tail := last_or_none (append_all (limit s) (buffer s) (drop (Suc i) ?W))\<rparr>)"
        using False jt nc out nx Some
        by (simp add: poll_journalctl_def check_output_def Let_def)
      with ap show ?thesis by simp
    qed
  qed
qed

text \<open>
  C7, as stated, fails when the source has no lines at all. The ring-buffer tool succeeds
  with an empty output: the initial reset leaves no tail marker, so each later poll is
  again a reset and returns \<open>([], True)\<close>, not \<open>([], False)\<close>.
\<close>

theorem quiescence_counterexample:
  "fst (poll (\<lambda>argv. Some []) (init 2 None (Some (py ''/bin/dmesg'')))) = ([], True)
   \<and> fst (poll (\<lambda>argv. Some []) (polls [\<lambda>argv. Some []] (init 2 None (Some (py ''/bin/dmesg'')))))
       = ([], True)
   \<and> fst (poll (\<lambda>argv. Some [])
        (polls [\<lambda>argv. Some [], \<lambda>argv. Some []] (init 2 None (Some (py ''/bin/dmesg'')))))
       = ([], True)
   \<and> fst (poll (\<lambda>argv. Some []) (polls [\<lambda>argv. Some []] (init 2 None (Some (py ''/bin/dmesg'')))))
       \<noteq> ([], False)"
  by (simp add: text_defs feed_defs)

text \<open>
  C7, amended. Take any feed built by the constructor and polled any number of times, and
  let \<open>s1\<close> be that feed after the selection block of \<open>poll\<close>. Ring buffer selected: a
  poll whose output has at least one non-blank line, be it a reset or an append, is
  followed by \<open>([], False)\<close> from each of the next two polls with the same output. Journal
  selected without cursor, output without trailer: the same, if the output has at least
  one line left after filtering. Journal selected with a cursor: a poll whose output has no
  line left after filtering returns \<open>([], False)\<close>, and so does the next one.
\<close>

theorem quiescent_polls:
  assumes sel: "select_backend (polls runs (init lim jc dm)) = Some s1"
  shows "(backend s1 = Some Dmesg \<and> dmesg s1 = Some d
          \<and> first_ok run (dmesg_candidates d) = Some out \<and> dmesg_lines out \<noteq> [] \<longrightarrow>
            fst (poll run (snd (poll run (polls runs (init lim jc dm))))) = ([], False)
            \<and> fst (poll run (snd (poll run (snd (poll run (polls runs (init lim jc dm)))))))
                = ([], False))
       \<and> (backend s1 = Some Journal \<and> journalctl s1 \<noteq> None
          \<and> \<not> truthy (cursor (polls runs (init lim jc dm)))
          \<and> run (journal_argv s1) = Some out \<and> \<not> truthy (extract_cursor (splitlines out))
          \<and> filter_journal_lines (splitlines out) \<noteq> [] \<longrightarrow>
            fst (poll run (snd (poll run (polls runs (init lim jc dm))))) = ([], False)
            \<and> fst (poll run (snd (poll run (snd (poll run (polls runs (init lim jc dm)))))))
                = ([], False))
       \<and> (backend s1 = Some Journal \<and> journalctl s1 \<noteq> None
          \<and> truthy (cursor (polls runs (init lim jc dm)))
          \<and> run (journal_argv s1) = Some out \<and> filter_journal_lines (splitlines out) = []
          \<and> run' (journal_argv (snd (poll run (polls runs (init lim jc dm))))) = Some out'
          \<and> filter_journal_lines (splitlines out') = [] \<longrightarrow>
            fst (poll run (polls runs (init lim jc dm))) = ([], False)
            \<and> fst (poll run' (snd (poll run (polls runs (init lim jc dm))))) = ([], False))"
proof (intro conjI impI)
  let ?s = "polls runs (init lim jc dm)"
  have sy: "feed_sync ?s" by (rule polls_feed_sync) (rule init_feed_sync)
  note fr = select_backend_frame [OF sel]
  note sy1 = select_backend_sync [OF sy sel]
  then have ok1: "feed_ok s1" by (simp add: feed_sync_def)
  {
    assume a: "backend s1 = Some Dmesg \<and> dmesg s1 = Some d
          \<and> first_ok run (dmesg_candidates d) = Some out \<and> dmesg_lines out \<noteq> []"
    let ?W = "dmesg_lines out"
    from a have k: "backend s1 = Some Dmesg" and d: "dmesg s1 = Some d"
      and out: "first_ok run (dmesg_candidates d) = Some out" and ne: "?W \<noteq> []" by simp_all
    from sy1 k have m1: "dmesg_tail s1 = last_or_none (buffer s1)" by (simp add: feed_sync_def)
    from a have e: "poll run ?s = poll_dmesg run False s1" using poll_ring [OF sel] by simp
    let ?t1 = "snd (poll run ?s)"
    from ring_poll_marker [OF ok1 d out ne m1] e
    have mt: "dmesg_tail ?t1 = Some (last ?W)" and bt: "last_or_none (buffer ?t1) = Some (last ?W)"
      by simp_all
    from poll_dmesg_frame [of run False s1] e k d
    have kt: "backend ?t1 = Some Dmesg" and dt: "dmesg ?t1 = Some d" by simp_all
    let ?t2 = "?t1\<lparr>invoked := invoked ?t1 @ attempts run (dmesg_candidates d)\<rparr>"
    have q1: "poll run ?t1 = (([], False), ?t2)"
      by (rule ring_quiet_step [OF kt dt out ne mt bt])
    have q2: "poll run ?t2 = (([], False), ?t2\<lparr>invoked := invoked ?t2 @ attempts run (dmesg_candidates d)\<rparr>)"
      by (rule ring_quiet_step [where d = d and out = out]) (use kt dt out ne mt bt in simp_all)
    show "fst (poll run (snd (poll run ?s))) = ([], False)" by (simp add: q1)
    show "fst (poll run (snd (poll run (snd (poll run ?s))))) = ([], False)"
      by (simp add: q1 q2)
  }
  {
    assume a: "backend s1 = Some Journal \<and> journalctl s1 \<noteq> None \<and> \<not> truthy (cursor ?s)
          \<and> run (journal_argv s1) = Some out \<and> \<not> truthy (extract_cursor (splitlines out))
          \<and> filter_journal_lines (splitlines out) \<noteq> []"
    let ?W = "filter_journal_lines (splitlines out)"
    from a have k: "backend s1 = Some Journal" and t: "journalctl s1 \<noteq> None"
      and out: "run (journal_argv s1) = Some out"
      and nx: "\<not> truthy (extract_cursor (splitlines out))" and ne: "?W \<noteq> []" by simp_all
    from a fr have nc: "\<not> truthy (cursor s1)" by simp
    from sy1 k have m1: "buffer s1 \<noteq> [] \<longrightarrow> journal_tail s1 = Some (last (buffer s1))"
      by (simp add: feed_sync_def)
    have e: "poll run ?s = poll_journalctl run s1" by (rule poll_journal [OF sel k t])
    let ?t1 = "snd (poll run ?s)"
    from journal_poll_marker [of s1 run out, OF ok1 nc out nx ne m1] e
    have mt: "journal_tail ?t1 = Some (last ?W)" and bt: "last_or_none (buffer ?t1) = Some (last ?W)"
      and ct: "cursor ?t1 = cursor s1" and kt: "backend ?t1 = backend s1"
      and tt: "journalctl ?t1 = journalctl s1" and lt: "limit ?t1 = limit s1" by simp_all
    have av1: "journal_argv ?t1 = journal_argv s1" by (rule journal_argv_cong [OF tt ct lt])
    let ?t2 = "?t1\<lparr>invoked := invoked ?t1 @ [journal_argv ?t1]\<rparr>"
    have av2: "journal_argv ?t2 = journal_argv s1"
      by (rule journal_argv_cong) (simp_all add: tt ct lt)
    have q1: "poll run ?t1 = (([], False), ?t2)"
      by (rule journal_quiet_step [where out = out]) (use k t nc out nx ne mt bt ct kt tt av1 in simp_all)
    have q2: "poll run ?t2 = (([], False), ?t2\<lparr>invoked := invoked ?t2 @ [journal_argv ?t2]\<rparr>)"
      by (rule journal_quiet_step [where out = out]) (use k t nc out nx ne mt bt ct kt tt av2 in simp_all)
    show "fst (poll run (snd (poll run ?s))) = ([], False)" by (simp add: q1)
    show "fst (poll run (snd (poll run (snd (poll run ?s))))) = ([], False)"
      by (simp add: q1 q2)
  }
  {
    assume a: "backend s1 = Some Journal \<and> journalctl s1 \<noteq> None \<and> truthy (cursor ?s)
          \<and> run (journal_argv s1) = Some out \<and> filter_journal_lines (splitlines out) = []
          \<and> run' (journal_argv (snd (poll run ?s))) = Some out'
          \<and> filter_journal_lines (splitlines out') = []"
    from a have k: "backend s1 = Some Journal" and t: "journalctl s1 \<noteq> None"
      and out: "run (journal_argv s1) = Some out" by simp_all
    from a fr have c1: "truthy (cursor s1)" by simp
    have e: "poll run ?s = poll_journalctl run s1" by (rule poll_journal [OF sel k t])
    note eq = poll_journalctl_with_cursor [of s1 run out, OF c1 out]
    let ?t = "snd (poll run ?s)"
    from a show f1: "fst (poll run ?s) = ([], False)" unfolding e eq by simp
    have k': "backend ?t = Some Journal" and t': "journalctl ?t \<noteq> None"
      and c': "truthy (cursor ?t)"
      unfolding e eq using k t c1 by simp_all
    from k' have sel': "select_backend ?t = Some ?t" by (simp add: select_backend_chosen)
    from a have out': "run' (journal_argv ?t) = Some out'" by simp
    have e': "poll run' ?t = poll_journalctl run' ?t" by (rule poll_journal [OF sel' k' t'])
    note eq' = poll_journalctl_with_cursor [of ?t run' out', OF c' out']
    from a show "fst (poll run' (snd (poll run ?s))) = ([], False)" unfolding e' eq' by simp
  }
qed

theorem quiescent_polls_witness:
  "fst (poll (\<lambda>argv. Some (py ''a\<newline>b\<newline>c\<newline>''))
        (polls [\<lambda>argv. Some (py ''a\<newline>b\<newline>'')] (init 2 None (Some (py ''/bin/dmesg'')))))
     = ([py ''c''], False)
   \<and> fst (poll (\<lambda>argv. Some (py ''a\<newline>b\<newline>c\<newline>''))
        (snd (poll (\<lambda>argv. Some (py ''a\<newline>b\<newline>c\<newline>''))
          (polls [\<lambda>argv. Some (py ''a\<newline>b\<newline>'')] (init 2 None (Some (py ''/bin/dmesg'')))))))
     = ([], False)
   \<and> fst (poll (\<lambda>argv. Some (py ''a\<newline>b\<newline>c\<newline>''))
        (snd (poll (\<lambda>argv. Some (py ''a\<newline>b\<newline>c\<newline>''))
          (snd (poll (\<lambda>argv. Some (py ''a\<newline>b\<newline>c\<newline>''))
            (polls [\<lambda>argv. Some (py ''a\<newline>b\<newline>'')] (init 2 None (Some (py ''/bin/dmesg'')))))))))
     = ([], False)
   \<and> fst (poll (\<lambda>argv. Some (py ''u1\<newline>u2\<newline>''))
        (snd (poll (\<lambda>argv. Some (py ''u1\<newline>u2\<newline>''))
          (polls [] (init 2 None (Some (py ''/bin/dmesg'')))))))
     = ([], False)
   \<and> fst (poll (\<lambda>argv. Some (py ''v1\<newline>v2\<newline>''))
        (polls [\<lambda>argv. Some (py ''v1\<newline>'')] (init 2 (Some (py ''/bin/journalctl'')) None)))
     = ([py ''v2''], False)
   \<and> fst (poll (\<lambda>argv. Some (py ''v1\<newline>v2\<newline>''))
        (snd (poll (\<lambda>argv. Some (py ''v1\<newline>v2\<newline>''))
          (polls [\<lambda>argv. Some (py ''v1\<newline>'')] (init 2 (Some (py ''/bin/journalctl'')) None)))))
     = ([], False)
   \<and> fst (poll (\<lambda>argv. Some (py ''-- No entries --\<newline>''))
        (polls [\<lambda>argv. Some (py ''a1\<newline>-- cursor: ABC\<newline>'')]
           (init 3 (Some (py ''/bin/journalctl'')) None))) = ([], False)
   \<and> fst (poll (\<lambda>argv. Some (py ''-- No entries --\<newline>''))
        (snd (poll (\<lambda>argv. Some (py ''-- No entries --\<newline>''))
          (polls [\<lambda>argv. Some (py ''a1\<newline>-- cursor: ABC\<newline>'')]
             (init 3 (Some (py ''/bin/journalctl'')) None))))) = ([], False)"
proof -
  let ?R = "polls [\<lambda>argv. Some (py ''a\<newline>b\<newline>'')] (init 2 None (Some (py ''/bin/dmesg'')))"
  let ?Z = "polls [] (init 2 None (Some (py ''/bin/dmesg'')))"
  let ?J = "polls [\<lambda>argv. Some (py ''v1\<newline>'')] (init 2 (Some (py ''/bin/journalctl'')) None)"
  let ?C = "polls [\<lambda>argv. Some (py ''a1\<newline>-- cursor: ABC\<newline>'')]
             (init 3 (Some (py ''/bin/journalctl'')) None)"
  let ?abc = "\<lambda>argv::pystr list. Some (py ''a\<newline>b\<newline>c\<newline>'')"
  let ?u = "\<lambda>argv::pystr list. Some (py ''u1\<newline>u2\<newline>'')"
  let ?v = "\<lambda>argv::pystr list. Some (py ''v1\<newline>v2\<newline>'')"
  let ?q = "\<lambda>argv::pystr list. Some (py ''-- No entries --\<newline>'')"
  have kR: "backend ?R = Some Dmesg" by (simp add: text_defs feed_defs)
  then have selR: "select_backend ?R = Some ?R" by (simp add: select_backend_chosen)
  have selR0: "select_backend ?Z = Some (?Z\<lparr>backend := Some Dmesg\<rparr>)"
    by (simp add: select_backend_def init_def)
  have kJ: "backend ?J = Some Journal" by (simp add: text_defs feed_defs)
  then have selJ: "select_backend ?J = Some ?J" by (simp add: select_backend_chosen)
  have kC: "backend ?C = Some Journal" by (simp add: text_defs feed_defs)
  then have selC: "select_backend ?C = Some ?C" by (simp add: select_backend_chosen)
  have r1: "fst (poll ?abc ?R) = ([py ''c''], False)" by (simp add: text_defs feed_defs)
  have j1: "fst (poll ?v ?J) = ([py ''v2''], False)" by (simp add: text_defs feed_defs)
  have preR: "backend ?R = Some Dmesg \<and> dmesg ?R = Some (py ''/bin/dmesg'')
      \<and> first_ok ?abc (dmesg_candidates (py ''/bin/dmesg'')) = Some (py ''a\<newline>b\<newline>c\<newline>'')
      \<and> dmesg_lines (py ''a\<newline>b\<newline>c\<newline>'') \<noteq> []"
    by (simp add: text_defs feed_defs)
  note a = quiescent_polls [OF selR, THEN conjunct1, rule_format, OF preR]
  have preR0: "backend (?Z\<lparr>backend := Some Dmesg\<rparr>) = Some Dmesg
      \<and> dmesg (?Z\<lparr>backend := Some Dmesg\<rparr>) = Some (py ''/bin/dmesg'')
      \<and> first_ok ?u (dmesg_candidates (py ''/bin/dmesg'')) = Some (py ''u1\<newline>u2\<newline>'')
      \<and> dmesg_lines (py ''u1\<newline>u2\<newline>'') \<noteq> []"
    by (simp add: text_defs feed_defs)
  note a0 = quiescent_polls [OF selR0, THEN conjunct1, rule_format, OF preR0]
  have preJ: "backend ?J = Some Journal \<and> journalctl ?J \<noteq> None \<and> \<not> truthy (cursor ?J)
      \<and> ?v (journal_argv ?J) = Some (py ''v1\<newline>v2\<newline>'')
      \<and> \<not> truthy (extract_cursor (splitlines (py ''v1\<newline>v2\<newline>'')))
      \<and> filter_journal_lines (splitlines (py ''v1\<newline>v2\<newline>'')) \<noteq> []"
    by (simp add: text_defs feed_defs)
  note b = quiescent_polls [OF selJ, THEN conjunct2, THEN conjunct1, rule_format, OF preJ]
  have preC: "backend ?C = Some Journal \<and> journalctl ?C \<noteq> None \<and> truthy (cursor ?C)
      \<and> ?q (journal_argv ?C) = Some (py ''-- No entries --\<newline>'')
      \<and> filter_journal_lines (splitlines (py ''-- No entries --\<newline>'')) = []
      \<and> ?q (journal_argv (snd (poll ?q ?C))) = Some (py ''-- No entries --\<newline>'')
      \<and> filter_journal_lines (splitlines (py ''-- No entries --\<newline>'')) = []"
    by (simp add: text_defs feed_defs)
  note c = quiescent_polls [OF selC, THEN conjunct2, THEN conjunct2, rule_format, OF preC]
  from r1 j1 a a0 b c show ?thesis by blast
qed

section \<open>Scenario A: two journal polls\<close>























end
